theory Spec2Isabelle
  imports Complex_Main
begin

section \<open>Data model\<close>

text \<open>
  The momentum core of \<^verbatim>\<open>src/app.py\<close>. Python's unbounded integers are \<open>int\<close>;
  Python floats are \<open>real\<close>, so rounding and infinities are not represented. What
  the numpy routines of the forecast engine return in floating point, NaN included,
  is represented there by taking the routines as parameters. A row of the
  \<^verbatim>\<open>snapshots\<close> table is a record with the columns of the \<^verbatim>\<open>CREATE TABLE\<close>
  statement.
\<close>

record snapshot =
  snap_id :: int
  match_id :: int
  timestamp :: int
  minute :: int
  score_home :: int
  score_away :: int
  pressure_index :: real

text \<open>
  The dictionary \<^verbatim>\<open>{'minute': .., 'score_home': .., 'score_away': ..}\<close> handed to
  \<^verbatim>\<open>calculate_pressure_index\<close>. Its only caller supplies all three keys, so the
  defaults of \<^verbatim>\<open>.get\<close> are never taken.
\<close>

record snapshot_data =
  sd_minute :: int
  sd_score_home :: int
  sd_score_away :: int

section \<open>Pressure calculator\<close>

text \<open>
  \<^verbatim>\<open>np.clip(a, a_min, a_max)\<close> is, by numpy's documentation,
  \<^verbatim>\<open>np.minimum(a_max, np.maximum(a, a_min))\<close>.
\<close>

definition np_clip :: "'a::linorder \<Rightarrow> 'a \<Rightarrow> 'a \<Rightarrow> 'a" where
  "np_clip a a_min a_max = min a_max (max a a_min)"

definition calculate_pressure_index :: "snapshot_data \<Rightarrow> snapshot list \<Rightarrow> real" where
  "calculate_pressure_index snapshot_data previous_snapshots =
    (let minute = sd_minute snapshot_data;
         score_home = sd_score_home snapshot_data;
         score_away = sd_score_away snapshot_data;
         base_pressure = (real_of_int minute / 90) * 20;
         score_diff = score_home - score_away;
         score_impact = np_clip (score_diff * 30) (- 60) 60;
         trend_impact =
           (case previous_snapshots of
              [] \<Rightarrow> (0::int)
            | last_snapshot # _ \<Rightarrow>
                (let t1 = (if score_home > snapshot.score_home last_snapshot then 0 + 40 else 0)
                 in if score_away > snapshot.score_away last_snapshot then t1 - 40 else t1));
         pressure = base_pressure + real_of_int score_impact + real_of_int trend_impact
     in np_clip pressure (- 100) 100)"

text \<open>
  The specification's \<open>clamp(v, lo, hi)\<close>, written from its words: \<open>v\<close> limited to
  the interval from \<open>lo\<close> to \<open>hi\<close>.
\<close>

definition clamp :: "'a::linorder \<Rightarrow> 'a \<Rightarrow> 'a \<Rightarrow> 'a" where
  "clamp v lo hi = (if v < lo then lo else if hi < v then hi else v)"

text \<open>The three terms of the specification's formula, written from its words.\<close>

definition spec_base :: "int \<Rightarrow> real" where
  "spec_base m = (real_of_int m / 90) * 20"

definition spec_score_impact :: "int \<Rightarrow> int \<Rightarrow> int" where
  "spec_score_impact sh sa = clamp ((sh - sa) * 30) (- 60) 60"

definition spec_trend_impact :: "int \<Rightarrow> int \<Rightarrow> snapshot option \<Rightarrow> int" where
  "spec_trend_impact sh sa prior =
    (case prior of
       None \<Rightarrow> 0
     | Some p \<Rightarrow> (if sh > score_home p then 40 else 0) + (if sa > score_away p then - 40 else 0))"

text \<open>
  The most recent prior snapshot: the caller passes the rows newest first, and the
  calculator reads element 0.
\<close>

definition most_recent :: "snapshot list \<Rightarrow> snapshot option" where
  "most_recent previous_snapshots = (case previous_snapshots of [] \<Rightarrow> None | s # _ \<Rightarrow> Some s)"

section \<open>Forecast engine\<close>

text \<open>
  Exceptions are values. The \<^verbatim>\<open>try\<close> block of \<^verbatim>\<open>get_forecast\<close> catches every
  \<^verbatim>\<open>Exception\<close>, whatever its class.
\<close>

datatype py_error = TypeError | ValueError | LinAlgError | KeyError

text \<open>
  A float as a numpy routine returns it: a number, or NaN. Arithmetic with NaN
  gives NaN and every comparison with NaN is false. Infinities are not modelled.
\<close>

datatype np_float = Num real | NaN

definition fl_op :: "(real \<Rightarrow> real \<Rightarrow> real) \<Rightarrow> np_float \<Rightarrow> np_float \<Rightarrow> np_float" where
  "fl_op f a b =
     (case a of NaN \<Rightarrow> NaN | Num u \<Rightarrow> (case b of NaN \<Rightarrow> NaN | Num v \<Rightarrow> Num (f u v)))"

definition fl_gt :: "np_float \<Rightarrow> np_float \<Rightarrow> bool" where
  "fl_gt a b = (case a of NaN \<Rightarrow> False | Num u \<Rightarrow> (case b of NaN \<Rightarrow> False | Num v \<Rightarrow> u > v))"

text \<open>
  Python's built-in \<^verbatim>\<open>min(a, b)\<close> returns \<open>a\<close> unless \<open>b < a\<close>, and
  \<^verbatim>\<open>max(a, b)\<close> returns \<open>a\<close> unless \<open>b > a\<close>; so a NaN first argument is returned.
\<close>

definition py_min :: "np_float \<Rightarrow> np_float \<Rightarrow> np_float" where
  "py_min a b = (if fl_gt a b then b else a)"

definition py_max :: "np_float \<Rightarrow> np_float \<Rightarrow> np_float" where
  "py_max a b = (if fl_gt b a then b else a)"

text \<open>
  The explanation is either a fixed text or the f-string
  \<^verbatim>\<open>f"Slope: {slope:.2f}, Var: {variance:.1f}. "\<close> followed by a fixed suffix. The
  f-string is represented by the two numbers it formats and the suffix, since the
  decimal rendering of a float is outside the model.
\<close>

datatype explanation = Text string | SlopeVar np_float np_float string

record forecast =
  level :: string
  probability :: int
  explanation :: explanation

text \<open>
  Python's \<^verbatim>\<open>int(x)\<close> on a float truncates toward zero, and raises
  \<^verbatim>\<open>ValueError\<close> on NaN.
\<close>

definition py_int :: "real \<Rightarrow> int" where
  "py_int x = (if x < 0 then \<lceil>x\<rceil> else \<lfloor>x\<rfloor>)"

definition py_int_float :: "np_float \<Rightarrow> py_error + int" where
  "py_int_float a = (case a of NaN \<Rightarrow> Inl ValueError | Num u \<Rightarrow> Inr (py_int u))"

text \<open>\<^verbatim>\<open>snapshots[-k:]\<close> for a positive \<open>k\<close>: the last \<open>k\<close> elements, or all of them.\<close>

definition py_last_k :: "nat \<Rightarrow> 'a list \<Rightarrow> 'a list" where
  "py_last_k k xs = drop (length xs - k) xs"

text \<open>
  The two numpy routines are library code working in floating point.
  \<^verbatim>\<open>get_forecast_with\<close> is the source's \<^verbatim>\<open>get_forecast\<close> with them as parameters:
  \<open>polyfit1 x y\<close> stands for \<^verbatim>\<open>np.polyfit(x, y, 1)\<close>, returning the coefficient
  array or raising, and \<open>var\<close> for \<^verbatim>\<open>np.var\<close>. The tuple assignment
  \<^verbatim>\<open>slope, intercept = ...\<close> raises \<^verbatim>\<open>ValueError\<close> inside the \<^verbatim>\<open>try\<close> when the array
  does not hold two values.
\<close>

type_synonym polyfit1_fn = "real list \<Rightarrow> real list \<Rightarrow> py_error + np_float list"
type_synonym var_fn = "real list \<Rightarrow> py_error + np_float"

definition forecast_try :: "polyfit1_fn \<Rightarrow> var_fn \<Rightarrow> real list \<Rightarrow> real list
    \<Rightarrow> py_error + (np_float \<times> np_float \<times> np_float)" where
  "forecast_try polyfit1 var x y =
    (case polyfit1 x y of
       Inl e \<Rightarrow> Inl e
     | Inr coeffs \<Rightarrow>
        (case coeffs of
           [slope, intercept] \<Rightarrow>
             (case var y of
                Inl e \<Rightarrow> Inl e
              | Inr variance \<Rightarrow> Inr (slope, intercept, variance))
         | _ \<Rightarrow> Inl ValueError))"

text \<open>
  The result is the dictionary returned, or the exception that leaves the
  function: \<^verbatim>\<open>int(probability)\<close> in the \<^verbatim>\<open>return\<close> statement stands after the
  \<^verbatim>\<open>try\<close> block.
\<close>

definition get_forecast_with :: "polyfit1_fn \<Rightarrow> var_fn \<Rightarrow> snapshot list
    \<Rightarrow> py_error + forecast" where
  "get_forecast_with polyfit1 var snapshots =
    (if length snapshots < 3 then
       Inr \<lparr>level = ''Inconclusive'', probability = 0,
            explanation = Text ''Insufficient data for trend analysis.''\<rparr>
     else
       (let y = map pressure_index (py_last_k 10 snapshots);
            x = map real [0..<length y]
        in case forecast_try polyfit1 var x y of
             Inl e \<Rightarrow>
               Inr \<lparr>level = ''Moderate'', probability = 50,
                    explanation = Text ''Calculating...''\<rparr>
           | Inr (slope, intercept, variance) \<Rightarrow>
               (let volatility_penalty = py_min (fl_op (/) variance (Num 10)) (Num 20);
                    probability_f = py_min (py_max
                       (fl_op (-) (fl_op (+) (Num 50) (fl_op (*) slope (Num 10)))
                          volatility_penalty) (Num 0)) (Num 100);
                    level_v = (if fl_gt slope (Num 1) then ''High''
                               else if fl_gt slope (Num (- 1)) then ''Moderate''
                               else ''Low'');
                    explanation_v = SlopeVar slope variance
                       (if fl_gt slope (Num 0) then ''Upward trend.'' else ''Downward pressure.'')
                in case py_int_float probability_f of
                     Inl e \<Rightarrow> Inl e
                   | Inr p \<Rightarrow> Inr \<lparr>level = level_v, probability = p,
                                    explanation = explanation_v\<rparr>)))"

text \<open>
  The two routines in exact arithmetic, for reference. \<open>exact_polyfit1\<close> is the
  least-squares line through the points, given by the normal equations (slope
  first); it raises \<^verbatim>\<open>TypeError\<close> for an empty \<open>x\<close> and for vectors of different
  lengths, as \<^verbatim>\<open>np.polyfit\<close> does. \<^verbatim>\<open>np.polyfit\<close> computes this line in floating
  point, so what it returns can differ from \<open>exact_polyfit1\<close> by rounding (and can be
  NaN); that is why the source's fit is a parameter above and not this function.
  \<open>np_var\<close> is the population variance, \<^verbatim>\<open>np.var\<close> with its default \<^verbatim>\<open>ddof=0\<close>: the
  mean of the squared deviations from the mean.
\<close>

definition exact_polyfit1 :: "real list \<Rightarrow> real list \<Rightarrow> py_error + np_float list" where
  "exact_polyfit1 x y =
    (if x = [] then Inl TypeError
     else if length x \<noteq> length y then Inl TypeError
     else
       (let n = real (length x);
            sx = sum_list x;
            sy = sum_list y;
            sxx = sum_list (map (\<lambda>xi. xi * xi) x);
            sxy = sum_list (map (\<lambda>(xi, yi). xi * yi) (zip x y));
            slope = (n * sxy - sx * sy) / (n * sxx - sx * sx);
            intercept = (sy - slope * sx) / n
        in Inr [Num slope, Num intercept]))"

definition np_mean :: "real list \<Rightarrow> real" where
  "np_mean y = sum_list y / real (length y)"

definition np_var :: "real list \<Rightarrow> py_error + np_float" where
  "np_var y = Inr (Num (np_mean (map (\<lambda>yi. (yi - np_mean y) ^ 2) y)))"

definition get_forecast_exact :: "snapshot list \<Rightarrow> py_error + forecast" where
  "get_forecast_exact snapshots = get_forecast_with exact_polyfit1 np_var snapshots"




section \<open>Chart renderer\<close>

text \<open>
  The markup returned by \<^verbatim>\<open>generate_svg_chart\<close> is represented by the values that
  its f-string interpolates: the dimensions, the colour and its gradient id, the
  end points of the zero line, and the points of the polyline in order. The empty
  string (no image) is \<open>None\<close>.
\<close>

record svg_chart =
  svg_width :: real
  svg_height :: real
  svg_color :: string
  svg_grad_id :: string
  svg_zero_line :: "(real \<times> real) \<times> (real \<times> real)"
  svg_points :: "(real \<times> real) list"

definition generate_svg_chart :: "snapshot list \<Rightarrow> real \<Rightarrow> real \<Rightarrow> real \<Rightarrow> string
    \<Rightarrow> svg_chart option" where
  "generate_svg_chart snapshots width height padding color =
    (if snapshots = [] then None
     else
       (let points = map (\<lambda>(i, s).
              (let x = padding + (real i * (width - 2 * padding)
                          / real_of_int (max (int (length snapshots) - 1) 1));
                   y = height / 2 - (pressure_index s * (height / 2 - padding) / 100)
               in (x, y))) (enumerate 0 snapshots)
        in Some \<lparr>svg_width = width, svg_height = height, svg_color = color,
             svg_grad_id = filter (\<lambda>c. c \<noteq> CHR ''#'') color,
             svg_zero_line = ((padding, height / 2), (width - padding, height / 2)),
             svg_points = points\<rparr>))"

definition generate_sparkline :: "snapshot list \<Rightarrow> svg_chart option" where
  "generate_sparkline snapshots = generate_svg_chart snapshots 120 40 5 ''#22c55e''"

section \<open>Stored state and the live feed\<close>

text \<open>
  A row of the \<^verbatim>\<open>matches\<close> table, and the part of the database that
  \<^verbatim>\<open>poll_live_matches\<close> writes: the two tables and the \<^verbatim>\<open>AUTOINCREMENT\<close> counter of
  \<^verbatim>\<open>snapshots\<close> (the largest row id ever used). Tables are lists of rows in row
  order. Timestamps are \<^verbatim>\<open>CURRENT_TIMESTAMP\<close> values, counted in seconds.
  \<^verbatim>\<open>score_predictions\<close>, which \<^verbatim>\<open>poll_live_matches\<close> calls last, reads
  \<^verbatim>\<open>matches\<close> and writes only the \<^verbatim>\<open>predictions\<close> and \<^verbatim>\<open>users\<close> tables; those
  two tables are not part of this state.
\<close>

record match_row =
  m_id :: int
  m_name :: string
  m_home_team :: string
  m_away_team :: string
  m_status :: string
  m_utc_date :: "string option"
  m_score_home :: int
  m_score_away :: int
  m_last_updated :: int

record db =
  db_matches :: "match_row list"
  db_snapshots :: "snapshot list"
  snapshot_seq :: int

text \<open>
  A match object of the feed. The entries that the code indexes directly
  (\<^verbatim>\<open>m['id']\<close>, \<^verbatim>\<open>m['homeTeam']['name']\<close>, \<^verbatim>\<open>m['status']\<close>) are taken to be present. The
  kick-off entry \<^verbatim>\<open>utcDate\<close> may be absent, JSON \<^verbatim>\<open>null\<close> or a string: the code
  reads it both as \<^verbatim>\<open>m['utcDate']\<close>, which raises \<^verbatim>\<open>KeyError\<close> when the entry is
  absent, and as \<^verbatim>\<open>m.get('utcDate')\<close>, which then yields \<open>None\<close>. The two full-time
  scores may be absent or \<^verbatim>\<open>null\<close>, and the competition object and its id may be
  absent, as the code reads them with \<^verbatim>\<open>.get\<close>.
\<close>

datatype json_entry = Absent | Null | Str string

definition index_entry :: "json_entry \<Rightarrow> py_error + string option" where
  "index_entry j = (case j of Absent \<Rightarrow> Inl KeyError | Null \<Rightarrow> Inr None | Str v \<Rightarrow> Inr (Some v))"

definition get_entry :: "json_entry \<Rightarrow> string option" where
  "get_entry j = (case j of Absent \<Rightarrow> None | Null \<Rightarrow> None | Str v \<Rightarrow> Some v)"

record competition =
  comp_id :: "int option"

record feed_match =
  fm_id :: int
  fm_home_name :: string
  fm_away_name :: string
  fm_status :: string
  fm_score_home :: "int option"
  fm_score_away :: "int option"
  fm_utcDate :: json_entry
  fm_competition :: "competition option"

text \<open>
  The outcome of \<^verbatim>\<open>requests.get\<close>: it raises (network error, timeout) with
  a message, or returns a response, whose \<^verbatim>\<open>.json()\<close> raises with a message or
  yields an object with optional \<^verbatim>\<open>message\<close> and \<^verbatim>\<open>matches\<close> entries.
\<close>

record response_json =
  rj_message :: "string option"
  rj_matches :: "feed_match list option"

record http_response =
  status_code :: int
  json_body :: "string + response_json"

datatype fetch_result = Raised string | Returned http_response

text \<open>
  A parsed \<^verbatim>\<open>datetime\<close>: its wall-clock value in microseconds and its
  \<^verbatim>\<open>tzinfo\<close> (a UTC offset, or none for a naive value).
\<close>

record py_datetime =
  dt_micros :: int
  dt_tzinfo :: "int option"

text \<open>
  What the poll cycle reads from its surroundings: the configured API key, the
  feed, the clock (\<^verbatim>\<open>str(datetime.now())\<close>, \<^verbatim>\<open>CURRENT_TIMESTAMP\<close> in seconds, and
  \<^verbatim>\<open>datetime.now(tz)\<close> in microseconds of wall-clock time in that zone), and the
  library parser \<^verbatim>\<open>datetime.fromisoformat\<close>, which returns \<open>None\<close> where it raises
  \<^verbatim>\<open>ValueError\<close>. The clock is read once per cycle: all rows written in one cycle
  carry the same timestamp.
\<close>

record env =
  current_key :: "string option"
  http_get :: "string \<Rightarrow> fetch_result"
  now_str :: string
  sql_now :: int
  datetime_now :: "int option \<Rightarrow> int"
  fromisoformat :: "string \<Rightarrow> py_datetime option"

text \<open>
  The global \<^verbatim>\<open>api_status\<close>. Its error text is a fixed string or an f-string,
  represented by the values the f-string interpolates:
  \<^verbatim>\<open>f"Error {status_code}: {message}"\<close> and \<^verbatim>\<open>f"Failed to connect to API: {e}"\<close>.
\<close>

datatype error_text = Message string | ErrorCode int string | FailedToConnect string

record api_status =
  status :: string
  last_check :: "string option"
  error :: "error_text option"

record app_state =
  api :: api_status
  database :: db

section \<open>Minute estimator\<close>

text \<open>\<^verbatim>\<open>utc_val.replace('Z', '+00:00')\<close>: every \<open>Z\<close> is replaced.\<close>

definition replace_Z :: "string \<Rightarrow> string" where
  "replace_Z utc_val = concat (map (\<lambda>c. if c = CHR ''Z'' then ''+00:00'' else [c]) utc_val)"

text \<open>
  The body of the \<^verbatim>\<open>try\<close> block that computes the minute;
  \<^verbatim>\<open>(now_utc - match_start).total_seconds()\<close> is the difference in microseconds
  divided by \<open>10^6\<close>.
\<close>

definition minute_try :: "env \<Rightarrow> string option \<Rightarrow> py_error + int" where
  "minute_try e utcDate =
    (let utc_val = (case utcDate of Some v \<Rightarrow> v | None \<Rightarrow> []);
         utc_date_str = replace_Z utc_val
     in if utc_date_str = [] then Inl ValueError
        else
          (case fromisoformat e utc_date_str of
             None \<Rightarrow> Inl ValueError
           | Some match_start \<Rightarrow>
               (let now_utc = datetime_now e (dt_tzinfo match_start);
                    total_seconds = real_of_int (now_utc - dt_micros match_start) / 1000000;
                    minute_v = py_int (total_seconds / 60)
                in Inr (max 1 (min minute_v 120)))))"

definition estimate_minute :: "env \<Rightarrow> string option \<Rightarrow> int" where
  "estimate_minute e utcDate = (case minute_try e utcDate of Inl err \<Rightarrow> 45 | Inr minute_v \<Rightarrow> minute_v)"

section \<open>Poll cycle\<close>

definition TOP_COMPETITIONS :: "int list" where
  "TOP_COMPETITIONS = [2021, 2014, 2001, 2002, 2019, 2015]"

definition active_statuses :: "string list" where
  "active_statuses = [''LIVE'', ''IN_PLAY'', ''TIMED'', ''STARTING'']"

text \<open>Python's \<^verbatim>\<open>sub in s\<close> on strings.\<close>

fun py_in :: "string \<Rightarrow> string \<Rightarrow> bool" where
  "py_in sub [] = (sub = [])"
| "py_in sub (c # cs) = (take (length sub) (c # cs) = sub \<or> py_in sub cs)"

definition is_demo :: "env \<Rightarrow> bool" where
  "is_demo e = (case current_key e of
                  None \<Rightarrow> True
                | Some k \<Rightarrow> k = [] \<or> py_in ''your_api_key_here'' k)"

definition demo_matches :: "env \<Rightarrow> feed_match list" where
  "demo_matches e =
    [\<lparr>fm_id = 1001, fm_home_name = ''Demo United'', fm_away_name = ''Mock City'',
      fm_status = ''LIVE'', fm_score_home = Some 2, fm_score_away = Some 1,
      fm_utcDate = Str (now_str e), fm_competition = None\<rparr>,
     \<lparr>fm_id = 1002, fm_home_name = ''Synthetic FC'', fm_away_name = ''Silicon Real'',
      fm_status = ''LIVE'', fm_score_home = Some 0, fm_score_away = Some 0,
      fm_utcDate = Str (now_str e), fm_competition = None\<rparr>]"

text \<open>The allow-list filter of the feed.\<close>

definition in_top_competition :: "feed_match \<Rightarrow> bool" where
  "in_top_competition m =
    (case fm_competition m of
       None \<Rightarrow> False
     | Some c \<Rightarrow> (case comp_id c of None \<Rightarrow> False | Some i \<Rightarrow> i \<in> set TOP_COMPETITIONS))"

text \<open>
  The two \<^verbatim>\<open>UPDATE matches SET status='FINISHED'\<close> statements, with and without the
  \<^verbatim>\<open>id NOT IN (...)\<close> condition.
\<close>

definition finish_except :: "int list \<Rightarrow> match_row list \<Rightarrow> match_row list" where
  "finish_except seen_ids rows =
     map (\<lambda>r. if m_status r \<in> set active_statuses \<and> m_id r \<notin> set seen_ids
               then r\<lparr>m_status := ''FINISHED''\<rparr> else r) rows"

definition finish_all :: "match_row list \<Rightarrow> match_row list" where
  "finish_all rows =
     map (\<lambda>r. if m_status r \<in> set active_statuses then r\<lparr>m_status := ''FINISHED''\<rparr> else r) rows"

text \<open>
  \<^verbatim>\<open>INSERT INTO matches ... ON CONFLICT(id) DO UPDATE SET status, score_home,
  score_away, last_updated\<close>.
\<close>

definition upsert_match :: "int \<Rightarrow> match_row \<Rightarrow> match_row list \<Rightarrow> match_row list" where
  "upsert_match now new rows =
    (if m_id new \<in> m_id ` set rows
     then map (\<lambda>r. if m_id r = m_id new
                    then r\<lparr>m_status := m_status new, m_score_home := m_score_home new,
                           m_score_away := m_score_away new, m_last_updated := now\<rparr>
                    else r) rows
     else rows @ [new])"

text \<open>
  \<^verbatim>\<open>ORDER BY timestamp DESC\<close>. SQLite leaves the order of rows with equal
  timestamps open; here they stay in row order.
\<close>

definition order_by_timestamp_desc :: "snapshot list \<Rightarrow> snapshot list" where
  "order_by_timestamp_desc rows = sort_key (\<lambda>s. - timestamp s) rows"

definition snapshots_of :: "int \<Rightarrow> snapshot list \<Rightarrow> snapshot list" where
  "snapshots_of mid rows = filter (\<lambda>s. match_id s = mid) rows"

text \<open>\<^verbatim>\<open>INSERT INTO snapshots\<close>: the row gets the next id and the current timestamp.\<close>

definition insert_snapshot :: "int \<Rightarrow> int \<Rightarrow> int \<Rightarrow> int \<Rightarrow> int \<Rightarrow> real \<Rightarrow> db \<Rightarrow> db" where
  "insert_snapshot now mid minute_v sh sa p_index d =
     d\<lparr>db_snapshots := db_snapshots d @
          [\<lparr>snap_id = snapshot_seq d + 1, match_id = mid, timestamp = now, minute = minute_v,
            score_home = sh, score_away = sa, pressure_index = p_index\<rparr>],
       snapshot_seq := snapshot_seq d + 1\<rparr>"

text \<open>
  \<^verbatim>\<open>DELETE FROM snapshots WHERE id IN (SELECT id FROM snapshots WHERE match_id=?
  ORDER BY timestamp DESC LIMIT -1 OFFSET 2000)\<close>.
\<close>

definition trim_snapshots :: "int \<Rightarrow> db \<Rightarrow> db" where
  "trim_snapshots mid d =
    (let ids = map snap_id (drop 2000 (order_by_timestamp_desc (snapshots_of mid (db_snapshots d))))
     in d\<lparr>db_snapshots := filter (\<lambda>s. snap_id s \<notin> set ids) (db_snapshots d)\<rparr>)"

text \<open>
  One iteration of the loop over the filtered feed. \<^verbatim>\<open>m['utcDate']\<close> is evaluated
  for the parameters of the \<^verbatim>\<open>INSERT INTO matches\<close> statement, before anything is
  written for this match and before the \<^verbatim>\<open>try\<close> block of the minute estimator; its
  \<^verbatim>\<open>KeyError\<close> leaves the loop.
\<close>

definition process_match :: "env \<Rightarrow> db \<Rightarrow> feed_match \<Rightarrow> py_error + db" where
  "process_match e d m =
    (let mid = fm_id m;
         home_name = fm_home_name m;
         away_name = fm_away_name m;
         name = home_name @ '' vs '' @ away_name;
         status_v = fm_status m;
         sh = (case fm_score_home m of Some h \<Rightarrow> h | None \<Rightarrow> 0);
         sa = (case fm_score_away m of Some a \<Rightarrow> a | None \<Rightarrow> 0)
     in case index_entry (fm_utcDate m) of
          Inl err \<Rightarrow> Inl err
        | Inr utc_date \<Rightarrow>
           (let d1 = d\<lparr>db_matches := upsert_match (sql_now e)
                      \<lparr>m_id = mid, m_name = name, m_home_team = home_name,
                       m_away_team = away_name, m_status = status_v, m_utc_date = utc_date,
                       m_score_home = sh, m_score_away = sa,
                       m_last_updated = sql_now e\<rparr> (db_matches d)\<rparr>;
                prev_snapshots =
                  take 20 (order_by_timestamp_desc (snapshots_of mid (db_snapshots d1)));
                minute_v = estimate_minute e (get_entry (fm_utcDate m));
                p_index = calculate_pressure_index
                   \<lparr>sd_minute = minute_v, sd_score_home = sh, sd_score_away = sa\<rparr>
                   prev_snapshots;
                d2 = insert_snapshot (sql_now e) mid minute_v sh sa p_index d1
            in Inr (trim_snapshots mid d2)))"

text \<open>The \<^verbatim>\<open>for m in matches\<close> loop: an exception ends it.\<close>

fun process_matches :: "env \<Rightarrow> db \<Rightarrow> feed_match list \<Rightarrow> py_error + db" where
  "process_matches e d [] = Inr d"
| "process_matches e d (m # ms) =
     (case process_match e d m of
        Inl err \<Rightarrow> Inl err
      | Inr d' \<Rightarrow> process_matches e d' ms)"

text \<open>
  The block under \<^verbatim>\<open>with app.app_context()\<close>, up to but not including
  \<^verbatim>\<open>db.commit()\<close>: the store with the uncommitted writes, or the exception.
\<close>

definition persist_matches :: "env \<Rightarrow> db \<Rightarrow> feed_match list \<Rightarrow> py_error + db" where
  "persist_matches e d feed =
    (let matches_f = filter in_top_competition feed;
         seen_ids = map fm_id matches_f;
         d1 = (if seen_ids \<noteq> []
               then d\<lparr>db_matches := finish_except seen_ids (db_matches d)\<rparr>
               else d\<lparr>db_matches := finish_all (db_matches d)\<rparr>)
     in process_matches e d1 matches_f)"

text \<open>
  \<^verbatim>\<open>db.commit()\<close> is reached only when the block raised nothing. An exception
  leaves \<^verbatim>\<open>poll_live_matches\<close>; the connection is then closed without a commit
  (\<^verbatim>\<open>close_connection\<close>), so the writes of the cycle are discarded and the stored
  state is what it was before the cycle.
\<close>

definition commit_or_discard :: "api_status \<Rightarrow> db \<Rightarrow> py_error + db
    \<Rightarrow> py_error option \<times> app_state" where
  "commit_or_discard a d r =
    (case r of
       Inl err \<Rightarrow> (Some err, \<lparr>api = a, database = d\<rparr>)
     | Inr d' \<Rightarrow> (None, \<lparr>api = a, database = d'\<rparr>))"

text \<open>
  One call of \<^verbatim>\<open>poll_live_matches\<close>: the exception that leaves it, if any, and
  the state it leaves behind.
\<close>

definition poll_live_matches_outcome :: "env \<Rightarrow> app_state \<Rightarrow> py_error option \<times> app_state" where
  "poll_live_matches_outcome e s =
    (let a0 = (api s)\<lparr>last_check := Some (now_str e)\<rparr>
     in if is_demo e then
          commit_or_discard
            (a0\<lparr>status := ''Demo Mode'',
                error := Some (Message
                  ''Using synthetic data. Add a real API key in .env to see live matches.'')\<rparr>)
            (database s) (persist_matches e (database s) (demo_matches e))
        else
          (case http_get e (case current_key e of Some k \<Rightarrow> k | None \<Rightarrow> []) of
             Raised msg \<Rightarrow>
               (None, s\<lparr>api := a0\<lparr>status := ''Connection Error'',
                                  error := Some (FailedToConnect msg)\<rparr>\<rparr>)
           | Returned response \<Rightarrow>
               if status_code response \<noteq> 200 then
                 (case json_body response of
                    Inl msg \<Rightarrow>
                      (None, s\<lparr>api := a0\<lparr>status := ''Connection Error'',
                                 error := Some (FailedToConnect msg)\<rparr>\<rparr>)
                  | Inr j \<Rightarrow>
                      (None, s\<lparr>api := a0\<lparr>status := ''API Error'',
                                 error := Some (ErrorCode (status_code response)
                                   (case rj_message j of Some t \<Rightarrow> t | None \<Rightarrow> ''Unknown''))\<rparr>\<rparr>))
               else
                 (case json_body response of
                    Inl msg \<Rightarrow>
                      (None, s\<lparr>api := a0\<lparr>status := ''Connection Error'',
                                 error := Some (FailedToConnect msg)\<rparr>\<rparr>)
                  | Inr j \<Rightarrow>
                      commit_or_discard (a0\<lparr>status := ''Healthy'', error := None\<rparr>)
                        (database s)
                        (persist_matches e (database s)
                           (case rj_matches j of Some ms \<Rightarrow> ms | None \<Rightarrow> [])))))"

text \<open>The state after one call, whether it returned or raised.\<close>

definition poll_live_matches :: "env \<Rightarrow> app_state \<Rightarrow> app_state" where
  "poll_live_matches e s = snd (poll_live_matches_outcome e s)"

text \<open>A sequence of poll cycles, each with its own surroundings.\<close>

definition poll_cycles :: "env list \<Rightarrow> app_state \<Rightarrow> app_state" where
  "poll_cycles es s = foldl (\<lambda>st e. poll_live_matches e st) s es"

text \<open>
  Well-formed stored state: snapshot ids are distinct and none exceeds the
  \<^verbatim>\<open>AUTOINCREMENT\<close> counter, as \<^verbatim>\<open>INTEGER PRIMARY KEY AUTOINCREMENT\<close> guarantees.
\<close>

definition wf_db :: "db \<Rightarrow> bool" where
  "wf_db d = (distinct (map snap_id (db_snapshots d))
              \<and> list_all (\<lambda>s. snap_id s \<le> snapshot_seq d) (db_snapshots d))"

section \<open>Example data\<close>

text \<open>A snapshot row with a given pressure index, for the concrete evaluations below.\<close>

definition example_snapshot :: "real \<Rightarrow> snapshot" where
  "example_snapshot p = \<lparr>snap_id = 0, match_id = 1001, timestamp = 0, minute = 45,
      score_home = 0, score_away = 0, pressure_index = p\<rparr>"

text \<open>
  A feed with a working key: the request returns status 200 with the given match
  objects; the clock stands 30 minutes after the one kick-off time the parser knows.
\<close>

definition example_env :: "feed_match list \<Rightarrow> env" where
  "example_env feed =
    \<lparr>current_key = Some ''k3y'',
     http_get = (\<lambda>k. Returned \<lparr>status_code = 200,
        json_body = Inr \<lparr>rj_message = None, rj_matches = Some feed\<rparr>\<rparr>),
     now_str = ''2024-05-01 18:30:00'',
     sql_now = 1000,
     datetime_now = (\<lambda>tz. 1800000000),
     fromisoformat = (\<lambda>s. if s = ''2024-05-01T18:00:00+00:00''
                          then Some \<lparr>dt_micros = 0, dt_tzinfo = Some 0\<rparr> else None)\<rparr>"

text \<open>A feed match of an allow-listed competition, with a given id and kick-off entry.\<close>

definition example_feed_match :: "int \<Rightarrow> json_entry \<Rightarrow> feed_match" where
  "example_feed_match i utc =
    \<lparr>fm_id = i, fm_home_name = ''Home'', fm_away_name = ''Away'', fm_status = ''IN_PLAY'',
     fm_score_home = Some 1, fm_score_away = Some 0, fm_utcDate = utc,
     fm_competition = Some \<lparr>comp_id = Some 2021\<rparr>\<rparr>"

definition example_row :: "string \<Rightarrow> match_row" where
  "example_row st =
    \<lparr>m_id = 7, m_name = ''Home vs Away'', m_home_team = ''Home'', m_away_team = ''Away'',
     m_status = st, m_utc_date = Some ''2024-05-01T18:00:00Z'', m_score_home = 1,
     m_score_away = 0, m_last_updated = 900\<rparr>"

definition example_state :: "match_row list \<Rightarrow> app_state" where
  "example_state rows =
    \<lparr>api = \<lparr>status = ''Unknown'', last_check = None, error = None\<rparr>,
     database = \<lparr>db_matches = rows, db_snapshots = [], snapshot_seq = 0\<rparr>\<rparr>"

text \<open>
  A store that holds \<open>n\<close> snapshots of match 7, with ids \<open>1, ..., n\<close> and timestamps
  \<open>0, ..., n - 1\<close>; the oldest is \<open>example_history_row 0\<close>.
\<close>

definition example_history_row :: "nat \<Rightarrow> snapshot" where
  "example_history_row i = \<lparr>snap_id = int i + 1, match_id = 7, timestamp = int i, minute = 45,
      score_home = 1, score_away = 0, pressure_index = 40\<rparr>"

definition example_history :: "nat \<Rightarrow> snapshot list" where
  "example_history n = map example_history_row [0..<n]"

definition example_store :: "nat \<Rightarrow> db" where
  "example_store n =
    \<lparr>db_matches = [example_row ''IN_PLAY''], db_snapshots = example_history n,
     snapshot_seq = int n\<rparr>"

section \<open>Properties of the pressure calculator\<close>

lemma np_clip_clamp: "lo \<le> hi \<Longrightarrow> np_clip v lo hi = clamp v lo hi"
  by (auto simp: np_clip_def clamp_def)

text \<open>
  C1. For every input and every optional most recent prior snapshot the calculator
  returns the clamp to \<open>[-100, 100]\<close> of base + score impact + trend impact, with
  the three terms as the specification words them; for minute 45, equal scores and
  no prior snapshot the result is 10.
\<close>

theorem C1_pressure_formula:
  "calculate_pressure_index \<lparr>sd_minute = m, sd_score_home = sh, sd_score_away = sa\<rparr> prev
     = clamp (spec_base m + real_of_int (spec_score_impact sh sa)
              + real_of_int (spec_trend_impact sh sa (most_recent prev))) (- 100) 100
   \<and> calculate_pressure_index \<lparr>sd_minute = 45, sd_score_home = s, sd_score_away = s\<rparr> [] = 10"
proof
  show "calculate_pressure_index \<lparr>sd_minute = m, sd_score_home = sh, sd_score_away = sa\<rparr> prev
     = clamp (spec_base m + real_of_int (spec_score_impact sh sa)
              + real_of_int (spec_trend_impact sh sa (most_recent prev))) (- 100) 100"
  proof (cases prev)
    case Nil
    then show ?thesis
      by (simp add: calculate_pressure_index_def Let_def np_clip_clamp spec_base_def
          spec_score_impact_def spec_trend_impact_def most_recent_def)
  next
    case (Cons p ps)
    then show ?thesis
      by (simp add: calculate_pressure_index_def Let_def np_clip_clamp spec_base_def
          spec_score_impact_def spec_trend_impact_def most_recent_def)
  qed
  show "calculate_pressure_index \<lparr>sd_minute = 45, sd_score_home = s, sd_score_away = s\<rparr> [] = 10"
    by (simp add: calculate_pressure_index_def np_clip_def)
qed

theorem C1_pressure_formula_witness:
  "calculate_pressure_index \<lparr>sd_minute = 60, sd_score_home = 2, sd_score_away = 0\<rparr>
      [\<lparr>snap_id = 1, match_id = 7, timestamp = 100, minute = 59, score_home = 1, score_away = 0,
        pressure_index = 40\<rparr>] = 100
   \<and> calculate_pressure_index \<lparr>sd_minute = 45, sd_score_home = 1, sd_score_away = 1\<rparr> [] = 10"
  using C1_pressure_formula [of 60 2 0 "[\<lparr>snap_id = 1, match_id = 7, timestamp = 100, minute = 59,
        score_home = 1, score_away = 0, pressure_index = 40\<rparr>]" 1]
  by (simp add: clamp_def spec_base_def spec_score_impact_def spec_trend_impact_def most_recent_def)

section \<open>Properties of the forecast engine\<close>












lemma py_last_k_subset: "set (py_last_k k xs) \<subseteq> set xs"
  unfolding py_last_k_def by (rule set_drop_subset)






lemma sum_list_deviation_constant:
  "\<forall>yi\<in>set y. yi = (c::real) \<Longrightarrow> sum_list (map (\<lambda>yi. (yi - c) ^ 2) y) = 0"
  by (induction y) simp_all



















text \<open>
  C9. For every snapshot sequence of length less than 3, whatever its content, the
  forecast is level Inconclusive, probability 0, explanation "Insufficient data for
  trend analysis.".
\<close>

theorem C9_insufficient_data:
  "length snapshots < 3 \<Longrightarrow>
     get_forecast_with polyfit1 var snapshots =
       Inr \<lparr>level = ''Inconclusive'', probability = 0,
            explanation = Text ''Insufficient data for trend analysis.''\<rparr>
   \<and> get_forecast_exact snapshots =
       Inr \<lparr>level = ''Inconclusive'', probability = 0,
            explanation = Text ''Insufficient data for trend analysis.''\<rparr>"
  by (simp add: get_forecast_exact_def get_forecast_with_def)

theorem C9_insufficient_data_witness:
  "get_forecast_exact [example_snapshot 100, example_snapshot (- 100)] =
       Inr \<lparr>level = ''Inconclusive'', probability = 0,
            explanation = Text ''Insufficient data for trend analysis.''\<rparr>"
  using C9_insufficient_data [of "[example_snapshot 100, example_snapshot (- 100)]"]
  by simp




lemma indices_4: "map real [0..<4] = [0, 1, 2, 3]"
  by (simp add: upt_rec)






section \<open>Properties of the chart renderer\<close>

lemma generate_svg_chart_points:
  assumes "snapshots \<noteq> []"
  shows "\<exists>chart. generate_svg_chart snapshots w h p col = Some chart
     \<and> length (svg_points chart) = length snapshots
     \<and> (\<forall>i<length snapshots. svg_points chart ! i =
           (p + real i * (w - 2 * p) / real_of_int (max (int (length snapshots) - 1) 1),
            h / 2 - pressure_index (snapshots ! i) * (h / 2 - p) / 100))"
  using assms by (simp add: generate_svg_chart_def Let_def nth_enumerate_eq)

text \<open>
  C10. The chart renderer returns the empty result on empty input. On \<open>n > 0\<close>
  snapshots it places point \<open>i\<close> at
  \<open>x = padding + i * (width - 2 * padding) / max (n - 1) 1\<close> and
  \<open>y = height / 2 - pressure * (height / 2 - padding) / 100\<close>: the first point (and so
  a single snapshot) is at the left padding edge, the last of two or more at
  \<open>width - padding\<close>, consecutive points are equally spaced, pressure 0 is at the
  vertical centre, and pressures 100 and -100 are at the padded top and bottom.
\<close>

theorem C10_chart_points:
  "generate_svg_chart [] w h p col = None
   \<and> (snapshots \<noteq> [] \<longrightarrow>
       (\<exists>chart. generate_svg_chart snapshots w h p col = Some chart
         \<and> length (svg_points chart) = length snapshots
         \<and> (\<forall>i<length snapshots. svg_points chart ! i =
               (p + real i * (w - 2 * p) / real_of_int (max (int (length snapshots) - 1) 1),
                h / 2 - pressure_index (snapshots ! i) * (h / 2 - p) / 100))
         \<and> fst (svg_points chart ! 0) = p
         \<and> (2 \<le> length snapshots \<longrightarrow> fst (svg_points chart ! (length snapshots - 1)) = w - p)
         \<and> (\<forall>i. Suc i < length snapshots \<longrightarrow>
               fst (svg_points chart ! Suc i) - fst (svg_points chart ! i)
                 = (w - 2 * p) / (real (length snapshots) - 1))
         \<and> (\<forall>i<length snapshots. pressure_index (snapshots ! i) = 0 \<longrightarrow>
               snd (svg_points chart ! i) = h / 2)
         \<and> (\<forall>i<length snapshots. pressure_index (snapshots ! i) = 100 \<longrightarrow>
               snd (svg_points chart ! i) = p)
         \<and> (\<forall>i<length snapshots. pressure_index (snapshots ! i) = - 100 \<longrightarrow>
               snd (svg_points chart ! i) = h - p)))"
proof (intro conjI impI)
  show "generate_svg_chart [] w h p col = None"
    by (simp add: generate_svg_chart_def)
next
  assume ne: "snapshots \<noteq> []"
  define n where "n = length snapshots"
  have n1: "1 \<le> n" using ne by (cases snapshots) (simp_all add: n_def)
  obtain chart where c: "generate_svg_chart snapshots w h p col = Some chart"
    and len: "length (svg_points chart) = n"
    and pts: "\<And>i. i < n \<Longrightarrow> svg_points chart ! i =
           (p + real i * (w - 2 * p) / real_of_int (max (int n - 1) 1),
            h / 2 - pressure_index (snapshots ! i) * (h / 2 - p) / 100)"
    using generate_svg_chart_points [OF ne, of w h p col] unfolding n_def by blast
  have left: "fst (svg_points chart ! 0) = p"
    using pts [of 0] n1 by simp
  have right: "2 \<le> n \<longrightarrow> fst (svg_points chart ! (n - 1)) = w - p"
  proof
    assume n2: "2 \<le> n"
    then have m: "real_of_int (max (int n - 1) 1) = real (n - 1)" by simp
    have "real (n - 1) \<noteq> 0" using n2 by simp
    then show "fst (svg_points chart ! (n - 1)) = w - p"
      using pts [of "n - 1"] n2 by (simp add: m)
  qed
  have even: "\<forall>i. Suc i < n \<longrightarrow>
        fst (svg_points chart ! Suc i) - fst (svg_points chart ! i) = (w - 2 * p) / (real n - 1)"
  proof (intro allI impI)
    fix i assume i: "Suc i < n"
    then have m: "real_of_int (max (int n - 1) 1) = real n - 1" by simp
    show "fst (svg_points chart ! Suc i) - fst (svg_points chart ! i) = (w - 2 * p) / (real n - 1)"
    proof -
      have a: "fst (svg_points chart ! Suc i) = p + (real i + 1) * (w - 2 * p) / (real n - 1)"
        using pts [of "Suc i"] i by (simp add: m)
      have b: "fst (svg_points chart ! i) = p + real i * (w - 2 * p) / (real n - 1)"
        using pts [of i] i by (simp add: m)
      have "(real i + 1) * (w - 2 * p) - real i * (w - 2 * p) = w - 2 * p"
        by (simp add: algebra_simps)
      then show ?thesis
        unfolding a b by (simp add: diff_divide_distrib [symmetric])
    qed
  qed
  have centre: "\<forall>i<n. pressure_index (snapshots ! i) = 0 \<longrightarrow> snd (svg_points chart ! i) = h / 2"
    using pts by simp
  have top: "\<forall>i<n. pressure_index (snapshots ! i) = 100 \<longrightarrow> snd (svg_points chart ! i) = p"
    using pts by (simp add: field_simps)
  have bottom: "\<forall>i<n. pressure_index (snapshots ! i) = - 100 \<longrightarrow> snd (svg_points chart ! i) = h - p"
    using pts by (simp add: field_simps)
  show "\<exists>chart. generate_svg_chart snapshots w h p col = Some chart
         \<and> length (svg_points chart) = length snapshots
         \<and> (\<forall>i<length snapshots. svg_points chart ! i =
               (p + real i * (w - 2 * p) / real_of_int (max (int (length snapshots) - 1) 1),
                h / 2 - pressure_index (snapshots ! i) * (h / 2 - p) / 100))
         \<and> fst (svg_points chart ! 0) = p
         \<and> (2 \<le> length snapshots \<longrightarrow> fst (svg_points chart ! (length snapshots - 1)) = w - p)
         \<and> (\<forall>i. Suc i < length snapshots \<longrightarrow>
               fst (svg_points chart ! Suc i) - fst (svg_points chart ! i)
                 = (w - 2 * p) / (real (length snapshots) - 1))
         \<and> (\<forall>i<length snapshots. pressure_index (snapshots ! i) = 0 \<longrightarrow>
               snd (svg_points chart ! i) = h / 2)
         \<and> (\<forall>i<length snapshots. pressure_index (snapshots ! i) = 100 \<longrightarrow>
               snd (svg_points chart ! i) = p)
         \<and> (\<forall>i<length snapshots. pressure_index (snapshots ! i) = - 100 \<longrightarrow>
               snd (svg_points chart ! i) = h - p)"
    using c len pts left right even centre top bottom unfolding n_def by blast
qed

theorem C10_chart_points_witness:
  "generate_svg_chart [] 600 200 20 ''#a855f7'' = None
   \<and> map_option svg_points (generate_svg_chart
        [example_snapshot 0, example_snapshot 100, example_snapshot (- 100)] 600 200 20 ''#a855f7'')
      = Some [(20, 100), (300, 20), (580, 180)]
   \<and> map_option svg_points (generate_sparkline [example_snapshot 0]) = Some [(5, 20)]"
  using C10_chart_points [of 600 200 20 "''#a855f7''"
      "[example_snapshot 0, example_snapshot 100, example_snapshot (- 100)]"]
  by (simp add: generate_svg_chart_def generate_sparkline_def example_snapshot_def Let_def enumerate_eq_zip upt_rec)

section \<open>Properties of the snapshot store\<close>

lemma sorted_take_drop_le:
  assumes "sorted (map f xs)" "a \<in> set (take k xs)" "b \<in> set (drop k xs)"
  shows "f a \<le> f b"
proof -
  have "sorted (map f (take k xs) @ map f (drop k xs))"
    using assms(1) by (simp flip: map_append)
  then show ?thesis using assms(2,3) by (auto simp: sorted_append)
qed

lemma trim_same_match:
  assumes "distinct (map snap_id S)"
  shows "snapshots_of mid
           (filter (\<lambda>s. snap_id s \<notin> set (map snap_id
              (drop 2000 (order_by_timestamp_desc (snapshots_of mid S))))) S)
         = filter (\<lambda>s. s \<notin> set (drop 2000 (order_by_timestamp_desc (snapshots_of mid S))))
             (snapshots_of mid S)"
proof -
  let ?del = "drop 2000 (order_by_timestamp_desc (snapshots_of mid S))"
  have inj: "inj_on snap_id (set S)" using assms by (simp add: distinct_map)
  have sub: "set ?del \<subseteq> set S"
    using set_drop_subset [of 2000 "order_by_timestamp_desc (snapshots_of mid S)"]
    by (auto simp: order_by_timestamp_desc_def snapshots_of_def)
  have "snap_id s \<in> set (map snap_id ?del) \<longleftrightarrow> s \<in> set ?del" if "s \<in> set S" for s
    using that inj sub by (auto simp: inj_on_def)
  then have "filter (\<lambda>s. snap_id s \<notin> set (map snap_id ?del)) S = filter (\<lambda>s. s \<notin> set ?del) S"
    by (intro filter_cong) auto
  then show ?thesis
    by (simp add: snapshots_of_def conj_commute)
qed

lemma trim_other_match:
  assumes "distinct (map snap_id S)" "mid' \<noteq> mid"
  shows "snapshots_of mid'
           (filter (\<lambda>s. snap_id s \<notin> set (map snap_id
              (drop 2000 (order_by_timestamp_desc (snapshots_of mid S))))) S)
         = snapshots_of mid' S"
proof -
  let ?del = "drop 2000 (order_by_timestamp_desc (snapshots_of mid S))"
  have inj: "inj_on snap_id (set S)" using assms(1) by (simp add: distinct_map)
  have sub: "set ?del \<subseteq> set (snapshots_of mid S)"
    using set_drop_subset [of 2000 "order_by_timestamp_desc (snapshots_of mid S)"]
    by (simp add: order_by_timestamp_desc_def)
  have "snap_id s \<notin> set (map snap_id ?del)" if "s \<in> set S" "match_id s = mid'" for s
  proof
    assume "snap_id s \<in> set (map snap_id ?del)"
    then obtain t where t: "t \<in> set ?del" "snap_id t = snap_id s" by auto
    then have "t \<in> set S" "match_id t = mid" using sub by (auto simp: snapshots_of_def)
    with inj that t show False using assms(2) by (auto simp: inj_on_def)
  qed
  then show ?thesis
    unfolding snapshots_of_def filter_filter by (intro filter_cong) auto
qed

lemma trim_length:
  assumes "distinct M"
  shows "length (filter (\<lambda>s. s \<notin> set (drop 2000 (order_by_timestamp_desc M))) M)
         = min 2000 (length M)"
proof -
  let ?srt = "order_by_timestamp_desc M"
  let ?del = "drop 2000 ?srt"
  have ds: "distinct ?srt" using assms by (simp add: order_by_timestamp_desc_def)
  have ss: "set ?srt = set M" by (simp add: order_by_timestamp_desc_def)
  have ls: "length ?srt = length M" by (simp add: order_by_timestamp_desc_def)
  have sub: "set ?del \<subseteq> set M" using set_drop_subset [of 2000 ?srt] ss by simp
  have cd: "card (set ?del) = length M - 2000"
    using distinct_card [OF distinct_drop [OF ds, of 2000]] ls by simp
  have "length (filter (\<lambda>s. s \<notin> set ?del) M) = card ({s. s \<notin> set ?del} \<inter> set M)"
    by (rule distinct_length_filter [OF assms])
  also have "{s. s \<notin> set ?del} \<inter> set M = set M - set ?del" by auto
  also have "card (set M - set ?del) = card (set M) - card (set ?del)"
    by (rule card_Diff_subset) (use sub in auto)
  also have "\<dots> = length M - (length M - 2000)"
    using distinct_card [OF assms] cd by simp
  finally show ?thesis by auto
qed

lemma trim_most_recent:
  assumes "k \<in> set (filter (\<lambda>s. s \<notin> set (drop 2000 (order_by_timestamp_desc M))) M)"
    and "r \<in> set M"
    and "r \<notin> set (filter (\<lambda>s. s \<notin> set (drop 2000 (order_by_timestamp_desc M))) M)"
  shows "timestamp r \<le> timestamp k"
proof -
  let ?srt = "order_by_timestamp_desc M"
  have srt: "sorted (map (\<lambda>s. - timestamp s) ?srt)"
    by (simp add: order_by_timestamp_desc_def)
  have ss: "set ?srt = set M" by (simp add: order_by_timestamp_desc_def)
  have "set (take 2000 ?srt) \<union> set (drop 2000 ?srt) = set M"
    using ss by (metis append_take_drop_id set_append)
  with assms(1) have k: "k \<in> set (take 2000 ?srt)" by auto
  from assms(2,3) have r: "r \<in> set (drop 2000 ?srt)" by auto
  from sorted_take_drop_le [OF srt k r] show ?thesis by simp
qed


lemma insert_snapshot_snapshots:
  "\<exists>new. snap_id new = snapshot_seq d + 1 \<and> match_id new = mid \<and> timestamp new = now
     \<and> db_snapshots (insert_snapshot now mid mv sh sa p d) = db_snapshots d @ [new]
     \<and> snapshot_seq (insert_snapshot now mid mv sh sa p d) = snapshot_seq d + 1"
  by (simp add: insert_snapshot_def)

lemma trim_snapshots_snapshots:
  "db_snapshots (trim_snapshots mid d)
     = filter (\<lambda>s. snap_id s \<notin> set (map snap_id (drop 2000 (order_by_timestamp_desc
               (snapshots_of mid (db_snapshots d)))))) (db_snapshots d)
   \<and> snapshot_seq (trim_snapshots mid d) = snapshot_seq d"
  by (simp add: trim_snapshots_def Let_def)

lemma process_match_absent:
  "fm_utcDate m = Absent \<Longrightarrow> process_match e d m = Inl KeyError"
  by (simp add: process_match_def Let_def index_entry_def)

lemma process_match_returns:
  "fm_utcDate m \<noteq> Absent \<Longrightarrow> \<exists>d'. process_match e d m = Inr d'"
  by (cases "fm_utcDate m") (simp_all add: process_match_def Let_def index_entry_def)

lemma process_match_steps:
  assumes "process_match e d m = Inr d'"
  shows "\<exists>mv sh sa p d1.
     d' = trim_snapshots (fm_id m) (insert_snapshot (sql_now e) (fm_id m) mv sh sa p d1)
     \<and> db_snapshots d1 = db_snapshots d \<and> snapshot_seq d1 = snapshot_seq d"
proof (cases "index_entry (fm_utcDate m)")
  case (Inl err)
  with assms show ?thesis by (simp add: process_match_def Let_def)
next
  case (Inr utc_date)
  with assms have "d' = trim_snapshots (fm_id m)
      (insert_snapshot (sql_now e) (fm_id m) (estimate_minute e (get_entry (fm_utcDate m)))
        (case fm_score_home m of Some h \<Rightarrow> h | None \<Rightarrow> 0)
        (case fm_score_away m of Some a \<Rightarrow> a | None \<Rightarrow> 0)
        (calculate_pressure_index
           \<lparr>sd_minute = estimate_minute e (get_entry (fm_utcDate m)),
            sd_score_home = (case fm_score_home m of Some h \<Rightarrow> h | None \<Rightarrow> 0),
            sd_score_away = (case fm_score_away m of Some a \<Rightarrow> a | None \<Rightarrow> 0)\<rparr>
           (take 20 (order_by_timestamp_desc (snapshots_of (fm_id m) (db_snapshots d)))))
        (d\<lparr>db_matches := upsert_match (sql_now e)
              \<lparr>m_id = fm_id m, m_name = fm_home_name m @ '' vs '' @ fm_away_name m,
               m_home_team = fm_home_name m, m_away_team = fm_away_name m,
               m_status = fm_status m, m_utc_date = utc_date,
               m_score_home = (case fm_score_home m of Some h \<Rightarrow> h | None \<Rightarrow> 0),
               m_score_away = (case fm_score_away m of Some a \<Rightarrow> a | None \<Rightarrow> 0),
               m_last_updated = sql_now e\<rparr> (db_matches d)\<rparr>))"
    by (simp add: process_match_def Let_def)
  then show ?thesis by (intro exI conjI, assumption) simp_all
qed

lemma process_match_snapshots:
  assumes "process_match e d m = Inr d'"
  shows "\<exists>new. snap_id new = snapshot_seq d + 1 \<and> match_id new = fm_id m
     \<and> timestamp new = sql_now e
     \<and> db_snapshots d'
         = filter (\<lambda>s. snap_id s \<notin> set (map snap_id (drop 2000 (order_by_timestamp_desc
               (snapshots_of (fm_id m) (db_snapshots d @ [new])))))) (db_snapshots d @ [new])
     \<and> snapshot_seq d' = snapshot_seq d + 1"
proof -
  obtain mv sh sa p d1 where pm: "d'
       = trim_snapshots (fm_id m) (insert_snapshot (sql_now e) (fm_id m) mv sh sa p d1)"
    and d1: "db_snapshots d1 = db_snapshots d" "snapshot_seq d1 = snapshot_seq d"
    using process_match_steps [OF assms] by blast
  obtain new where new: "snap_id new = snapshot_seq d1 + 1" "match_id new = fm_id m"
      "timestamp new = sql_now e"
      "db_snapshots (insert_snapshot (sql_now e) (fm_id m) mv sh sa p d1) = db_snapshots d1 @ [new]"
      "snapshot_seq (insert_snapshot (sql_now e) (fm_id m) mv sh sa p d1) = snapshot_seq d1 + 1"
    using insert_snapshot_snapshots [of d1 "fm_id m" "sql_now e" mv sh sa p] by blast
  show ?thesis
    unfolding pm using new d1
    by (intro exI [of _ new]) (simp only: trim_snapshots_snapshots simp_thms)
qed

lemma wf_db_fresh:
  assumes "wf_db d" "snap_id new = snapshot_seq d + 1"
  shows "distinct (map snap_id (db_snapshots d @ [new]))"
proof -
  have "snap_id s < snap_id new" if "s \<in> set (db_snapshots d)" for s
    using assms that by (fastforce simp: wf_db_def list_all_iff)
  then have "snap_id new \<notin> snap_id ` set (db_snapshots d)" by fastforce
  then show ?thesis using assms(1) by (simp add: wf_db_def)
qed

lemma process_match_step:
  assumes wf: "wf_db d" and pm: "process_match e d m = Inr d'"
  shows "wf_db d'
    \<and> length (snapshots_of (fm_id m) (db_snapshots d'))
         = min 2000 (length (snapshots_of (fm_id m) (db_snapshots d)) + 1)
    \<and> (\<exists>new. match_id new = fm_id m \<and> timestamp new = sql_now e
          \<and> distinct (snapshots_of (fm_id m) (db_snapshots d) @ [new])
          \<and> set (snapshots_of (fm_id m) (db_snapshots d'))
               \<subseteq> set (snapshots_of (fm_id m) (db_snapshots d) @ [new])
          \<and> (\<forall>k\<in>set (snapshots_of (fm_id m) (db_snapshots d')).
               \<forall>r\<in>set (snapshots_of (fm_id m) (db_snapshots d) @ [new])
                    - set (snapshots_of (fm_id m) (db_snapshots d')).
                 timestamp r \<le> timestamp k))
    \<and> (\<forall>mid'. mid' \<noteq> fm_id m \<longrightarrow>
          snapshots_of mid' (db_snapshots d') = snapshots_of mid' (db_snapshots d))"
proof -
  obtain new where new: "snap_id new = snapshot_seq d + 1" "match_id new = fm_id m"
      "timestamp new = sql_now e"
    and snaps: "db_snapshots d'
         = filter (\<lambda>s. snap_id s \<notin> set (map snap_id (drop 2000 (order_by_timestamp_desc
               (snapshots_of (fm_id m) (db_snapshots d @ [new])))))) (db_snapshots d @ [new])"
    and seq: "snapshot_seq d' = snapshot_seq d + 1"
    using process_match_snapshots [OF pm] by blast
  let ?S = "db_snapshots d @ [new]"
  let ?M = "snapshots_of (fm_id m) ?S"
  let ?after = "filter (\<lambda>s. s \<notin> set (drop 2000 (order_by_timestamp_desc ?M))) ?M"
  have dS: "distinct (map snap_id ?S)" by (rule wf_db_fresh [OF wf new(1)])
  have M: "?M = snapshots_of (fm_id m) (db_snapshots d) @ [new]"
    using new(2) by (simp add: snapshots_of_def)
  have dM: "distinct ?M"
  proof -
    have "distinct ?S" using dS by (metis distinct_map)
    then show ?thesis unfolding snapshots_of_def by (rule distinct_filter)
  qed
  have same: "snapshots_of (fm_id m) (db_snapshots d') = ?after"
    unfolding snaps by (rule trim_same_match [OF dS])
  have wf': "wf_db d'"
  proof -
    have "distinct (map snap_id (db_snapshots d'))"
      unfolding snaps using dS by (rule distinct_map_filter)
    moreover have "list_all (\<lambda>s. snap_id s \<le> snapshot_seq d + 1) ?S"
      using wf new(1) by (auto simp: wf_db_def list_all_iff)
    then have "list_all (\<lambda>s. snap_id s \<le> snapshot_seq d') (db_snapshots d')"
      unfolding snaps seq by (auto simp: list_all_iff)
    ultimately show ?thesis by (simp add: wf_db_def)
  qed
  have len: "length (snapshots_of (fm_id m) (db_snapshots d'))
         = min 2000 (length (snapshots_of (fm_id m) (db_snapshots d)) + 1)"
    unfolding same using trim_length [OF dM] by (simp add: M)
  have dist: "distinct (snapshots_of (fm_id m) (db_snapshots d) @ [new])"
    using dM unfolding M .
  have sub: "set (snapshots_of (fm_id m) (db_snapshots d'))
               \<subseteq> set (snapshots_of (fm_id m) (db_snapshots d) @ [new])"
    unfolding same M [symmetric] by auto
  have recent: "\<forall>k\<in>set (snapshots_of (fm_id m) (db_snapshots d')).
               \<forall>r\<in>set (snapshots_of (fm_id m) (db_snapshots d) @ [new])
                    - set (snapshots_of (fm_id m) (db_snapshots d')).
                 timestamp r \<le> timestamp k"
    unfolding same M [symmetric] using trim_most_recent [of _ ?M] by blast
  have other: "\<forall>mid'. mid' \<noteq> fm_id m \<longrightarrow>
          snapshots_of mid' (db_snapshots d') = snapshots_of mid' (db_snapshots d)"
  proof (intro allI impI)
    fix mid' assume ne: "mid' \<noteq> fm_id m"
    have "snapshots_of mid' (db_snapshots d') = snapshots_of mid' ?S"
      unfolding snaps by (rule trim_other_match [OF dS ne])
    also have "\<dots> = snapshots_of mid' (db_snapshots d)"
      using new(2) ne by (simp add: snapshots_of_def)
    finally show "snapshots_of mid' (db_snapshots d') = snapshots_of mid' (db_snapshots d)" .
  qed
  show ?thesis using wf' len new(2,3) dist sub recent other by blast
qed

lemma process_match_bounded:
  assumes "wf_db d" "\<forall>mid. length (snapshots_of mid (db_snapshots d)) \<le> 2000"
    and "process_match e d m = Inr d'"
  shows "wf_db d' \<and> (\<forall>mid. length (snapshots_of mid (db_snapshots d')) \<le> 2000)"
proof -
  note st = process_match_step [OF assms(1,3)]
  have "length (snapshots_of mid (db_snapshots d')) \<le> 2000" for mid
  proof (cases "mid = fm_id m")
    case True
    then show ?thesis using st by simp
  next
    case False
    then show ?thesis using st assms(2) by simp
  qed
  then show ?thesis using st by blast
qed

lemma process_matches_bounded:
  assumes "wf_db d" "\<forall>mid. length (snapshots_of mid (db_snapshots d)) \<le> 2000"
    and "process_matches e d ms = Inr d'"
  shows "wf_db d' \<and> (\<forall>mid. length (snapshots_of mid (db_snapshots d')) \<le> 2000)"
  using assms
proof (induction ms arbitrary: d)
  case Nil
  then show ?case by simp
next
  case (Cons m ms)
  from Cons.prems(3) obtain d1 where d1: "process_match e d m = Inr d1"
    and rest: "process_matches e d1 ms = Inr d'"
    by (auto split: sum.splits)
  from process_match_bounded [OF Cons.prems(1,2) d1] Cons.IH [OF _ _ rest]
  show ?case by blast
qed

lemma persist_matches_bounded:
  assumes "wf_db d" "\<forall>mid. length (snapshots_of mid (db_snapshots d)) \<le> 2000"
    and "persist_matches e d feed = Inr d'"
  shows "wf_db d' \<and> (\<forall>mid. length (snapshots_of mid (db_snapshots d')) \<le> 2000)"
proof -
  have a: "wf_db (d\<lparr>db_matches := rows\<rparr>)" for rows
    using assms(1) by (simp add: wf_db_def)
  have b: "\<forall>mid. length (snapshots_of mid (db_snapshots (d\<lparr>db_matches := rows\<rparr>))) \<le> 2000" for rows
    using assms(2) by simp
  from assms(3) obtain rows where
    "process_matches e (d\<lparr>db_matches := rows\<rparr>) (filter in_top_competition feed) = Inr d'"
    unfolding persist_matches_def Let_def by (auto split: if_splits)
  from process_matches_bounded [OF a b this] show ?thesis .
qed

lemma poll_database_cases:
  "database (poll_live_matches e s) = database s
   \<or> (\<exists>feed. persist_matches e (database s) feed = Inr (database (poll_live_matches e s)))"
  by (auto simp: poll_live_matches_def poll_live_matches_outcome_def commit_or_discard_def Let_def
      split: fetch_result.splits sum.splits)

lemma poll_bounded:
  assumes "wf_db (database s)"
    "\<forall>mid. length (snapshots_of mid (db_snapshots (database s))) \<le> 2000"
  shows "wf_db (database (poll_live_matches e s))
     \<and> (\<forall>mid. length (snapshots_of mid (db_snapshots (database (poll_live_matches e s)))) \<le> 2000)"
proof -
  from poll_database_cases [of e s] show ?thesis
  proof
    assume "database (poll_live_matches e s) = database s"
    with assms show ?thesis by simp
  next
    assume "\<exists>feed. persist_matches e (database s) feed = Inr (database (poll_live_matches e s))"
    then obtain feed where
      "persist_matches e (database s) feed = Inr (database (poll_live_matches e s))" ..
    from persist_matches_bounded [OF assms this] show ?thesis .
  qed
qed

lemma poll_cycles_bounded:
  assumes "wf_db (database s)"
    "\<forall>mid. length (snapshots_of mid (db_snapshots (database s))) \<le> 2000"
  shows "wf_db (database (poll_cycles es s))
     \<and> (\<forall>mid. length (snapshots_of mid (db_snapshots (database (poll_cycles es s)))) \<le> 2000)"
  using assms unfolding poll_cycles_def
proof (induction es arbitrary: s)
  case Nil
  then show ?case by simp
next
  case (Cons e es)
  from poll_bounded [OF Cons.prems, of e] Cons.IH [of "poll_live_matches e s"]
  show ?case by simp
qed

lemma example_history_set:
  "s \<in> set (example_history n) \<longleftrightarrow> (\<exists>i<n. s = example_history_row i)"
  by (auto simp: example_history_def)

lemma example_history_distinct: "distinct (example_history n)"
  unfolding example_history_def
  by (simp add: distinct_map inj_on_def example_history_row_def)

lemma example_history_of_7: "snapshots_of 7 (example_history n) = example_history n"
  by (simp add: snapshots_of_def example_history_def example_history_row_def)

lemma example_store_wf: "wf_db (example_store n)"
proof -
  have "map snap_id (example_history n) = map (\<lambda>i. int i + 1) [0..<n]"
    by (simp add: example_history_def example_history_row_def)
  moreover have "distinct (map (\<lambda>i. int i + 1) [0..<n])"
    by (simp add: distinct_map inj_on_def)
  ultimately show ?thesis
    by (auto simp: wf_db_def example_store_def list_all_iff example_history_set
        example_history_row_def)
qed

text \<open>
  C4. In a well-formed store, processing a feed match inserts one snapshot for it and
  leaves \<open>min 2000 (n + 1)\<close> of its \<open>n + 1\<close> snapshots: at most 2000, and exactly 2000
  once more than 2000 have been inserted. The survivors are the most recent ones by
  timestamp: no trimmed snapshot is newer than a surviving one. Snapshots of other
  matches are untouched. A match object with a kick-off entry is always processed.
  Hence, if every match has at most 2000 snapshots (as in a fresh database), this
  still holds after any number of poll cycles.
\<close>

theorem C4_snapshot_cap:
  "(wf_db d \<and> process_match e d m = Inr d' \<longrightarrow>
      length (snapshots_of (fm_id m) (db_snapshots d'))
         = min 2000 (length (snapshots_of (fm_id m) (db_snapshots d)) + 1)
    \<and> (\<exists>new. match_id new = fm_id m \<and> timestamp new = sql_now e
          \<and> distinct (snapshots_of (fm_id m) (db_snapshots d) @ [new])
          \<and> set (snapshots_of (fm_id m) (db_snapshots d'))
               \<subseteq> set (snapshots_of (fm_id m) (db_snapshots d) @ [new])
          \<and> (\<forall>k\<in>set (snapshots_of (fm_id m) (db_snapshots d')).
               \<forall>r\<in>set (snapshots_of (fm_id m) (db_snapshots d) @ [new])
                    - set (snapshots_of (fm_id m) (db_snapshots d')).
                 timestamp r \<le> timestamp k))
    \<and> (\<forall>mid'. mid' \<noteq> fm_id m \<longrightarrow>
          snapshots_of mid' (db_snapshots d') = snapshots_of mid' (db_snapshots d)))
   \<and> (fm_utcDate m \<noteq> Absent \<longrightarrow> (\<exists>d1. process_match e d m = Inr d1))
   \<and> (wf_db (database s)
        \<and> (\<forall>mid. length (snapshots_of mid (db_snapshots (database s))) \<le> 2000) \<longrightarrow>
       (\<forall>mid. length (snapshots_of mid (db_snapshots (database (poll_cycles es s)))) \<le> 2000))"
  using process_match_step [of d e m d'] process_match_returns [of m e d]
    poll_cycles_bounded [of s es]
  by blast

theorem C4_snapshot_cap_witness:
  "wf_db (example_store 2000)
   \<and> length (snapshots_of 7 (db_snapshots (example_store 2000))) = 2000
   \<and> (\<exists>d'. process_match (example_env []) (example_store 2000)
              (example_feed_match 7 (Str ''2024-05-01T18:00:00Z'')) = Inr d'
         \<and> length (snapshots_of 7 (db_snapshots d')) = 2000
         \<and> example_history_row 0 \<in> set (snapshots_of 7 (db_snapshots (example_store 2000)))
         \<and> example_history_row 0 \<notin> set (snapshots_of 7 (db_snapshots d')))
   \<and> (\<forall>mid. length (snapshots_of mid (db_snapshots (database
        (poll_cycles [example_env [example_feed_match 7 (Str ''2024-05-01T18:00:00Z'')],
                      example_env []]
           \<lparr>api = \<lparr>status = ''Unknown'', last_check = None, error = None\<rparr>,
            database = example_store 2000\<rparr>))))
          \<le> 2000)"
proof -
  let ?d = "example_store 2000"
  let ?m = "example_feed_match 7 (Str ''2024-05-01T18:00:00Z'')"
  let ?e = "example_env []"
  let ?s = "\<lparr>api = \<lparr>status = ''Unknown'', last_check = None, error = None\<rparr>,
            database = example_store 2000\<rparr>"
  let ?es = "[example_env [example_feed_match 7 (Str ''2024-05-01T18:00:00Z'')], example_env []]"
  have wf: "wf_db ?d" by (rule example_store_wf)
  have id: "fm_id ?m = 7" and utc: "fm_utcDate ?m \<noteq> Absent"
    by (simp_all add: example_feed_match_def)
  have now: "sql_now ?e = 1000" by (simp add: example_env_def)
  have before: "snapshots_of 7 (db_snapshots ?d) = example_history 2000"
    by (simp add: example_store_def example_history_of_7)
  have lb: "length (snapshots_of 7 (db_snapshots ?d)) = 2000"
    unfolding before by (simp add: example_history_def)
  have bound: "\<forall>mid. length (snapshots_of mid (db_snapshots (database ?s))) \<le> 2000"
  proof
    fix mid
    have "length (snapshots_of mid (example_history 2000)) \<le> length (example_history 2000)"
      unfolding snapshots_of_def by (rule length_filter_le)
    then show "length (snapshots_of mid (db_snapshots (database ?s))) \<le> 2000"
      by (simp add: example_store_def example_history_def)
  qed
  have old_in: "example_history_row 0 \<in> set (snapshots_of 7 (db_snapshots ?d))"
    unfolding before example_history_set by (rule exI [of _ 0]) simp
  obtain d' where pm: "process_match ?e ?d ?m = Inr d'"
    using C4_snapshot_cap [of ?d ?e ?m ?d ?s ?es] utc by blast
  note c4 = C4_snapshot_cap [of ?d ?e ?m d' ?s ?es]
  have la: "length (snapshots_of 7 (db_snapshots d')) = 2000"
    using c4 wf pm unfolding id lb by simp
  obtain new where new: "timestamp new = 1000"
    and dist: "distinct (example_history 2000 @ [new])"
    and sub: "set (snapshots_of 7 (db_snapshots d')) \<subseteq> set (example_history 2000 @ [new])"
    and recent: "\<forall>k\<in>set (snapshots_of 7 (db_snapshots d')).
               \<forall>r\<in>set (example_history 2000 @ [new]) - set (snapshots_of 7 (db_snapshots d')).
                 timestamp r \<le> timestamp k"
    using c4 wf pm unfolding id before now by blast
  have old_out: "example_history_row 0 \<notin> set (snapshots_of 7 (db_snapshots d'))"
  proof
    assume inn: "example_history_row 0 \<in> set (snapshots_of 7 (db_snapshots d'))"
    have "card (set (snapshots_of 7 (db_snapshots d'))) \<le> 2000"
      using card_length [of "snapshots_of 7 (db_snapshots d')"] la by simp
    moreover have "card (set (example_history 2000 @ [new])) = 2001"
      using distinct_card [OF dist] by (simp add: example_history_def)
    ultimately have "set (snapshots_of 7 (db_snapshots d')) \<noteq> set (example_history 2000 @ [new])"
      by auto
    with sub obtain r where r: "r \<in> set (example_history 2000 @ [new])"
        "r \<notin> set (snapshots_of 7 (db_snapshots d'))"
      by blast
    with recent inn have "timestamp r \<le> timestamp (example_history_row 0)" by blast
    then have r0: "timestamp r \<le> 0" by (simp add: example_history_row_def)
    from r(1) have "r = new \<or> (\<exists>i<2000. r = example_history_row i)"
      by (auto simp: example_history_set)
    then show False
    proof
      assume "r = new"
      with r0 new show False by simp
    next
      assume "\<exists>i<2000. r = example_history_row i"
      then obtain i where i: "r = example_history_row i" by blast
      with r0 have "i = 0" by (simp add: example_history_row_def)
      with i inn r(2) show False by simp
    qed
  qed
  have cyc: "\<forall>mid. length (snapshots_of mid (db_snapshots (database (poll_cycles ?es ?s)))) \<le> 2000"
    using c4 wf bound by simp
  show ?thesis
    using wf lb pm la old_in old_out cyc by blast
qed

section \<open>Properties of the poll cycle\<close>

lemma upsert_match_ids:
  "m_id ` set (upsert_match now new rows) = insert (m_id new) (m_id ` set rows)"
proof (cases "m_id new \<in> m_id ` set rows")
  case True
  let ?f = "\<lambda>r. if m_id r = m_id new
                    then r\<lparr>m_status := m_status new, m_score_home := m_score_home new,
                           m_score_away := m_score_away new, m_last_updated := now\<rparr>
                    else r"
  have "m_id ` set (map ?f rows) = (\<lambda>r. m_id (?f r)) ` set rows"
    by (simp only: set_map image_image)
  also have "\<dots> = m_id ` set rows"
    by (intro image_cong) auto
  finally show ?thesis using True by (simp only: upsert_match_def if_True insert_absorb)
next
  case False
  then show ?thesis by (simp add: upsert_match_def)
qed

lemma trim_snapshots_matches: "db_matches (trim_snapshots mid d) = db_matches d"
  by (simp add: trim_snapshots_def Let_def)

lemma insert_snapshot_matches:
  "db_matches (insert_snapshot now mid mv sh sa p d) = db_matches d"
  by (simp add: insert_snapshot_def Let_def)

lemma process_match_matches:
  assumes "process_match e d m = Inr d'"
  shows "\<exists>new. m_id new = fm_id m
     \<and> db_matches d' = upsert_match (sql_now e) new (db_matches d)"
proof (cases "index_entry (fm_utcDate m)")
  case (Inl err)
  with assms show ?thesis by (simp add: process_match_def Let_def)
next
  case (Inr u)
  with assms have "db_matches d' = upsert_match (sql_now e)
       \<lparr>m_id = fm_id m, m_name = fm_home_name m @ '' vs '' @ fm_away_name m,
        m_home_team = fm_home_name m, m_away_team = fm_away_name m,
        m_status = fm_status m, m_utc_date = u,
        m_score_home = (case fm_score_home m of Some h \<Rightarrow> h | None \<Rightarrow> 0),
        m_score_away = (case fm_score_away m of Some a \<Rightarrow> a | None \<Rightarrow> 0),
        m_last_updated = sql_now e\<rparr> (db_matches d)"
    unfolding process_match_def Let_def
    by (auto simp: trim_snapshots_matches insert_snapshot_matches)
  then show ?thesis
    by (intro exI [of _ "\<lparr>m_id = fm_id m, m_name = fm_home_name m @ '' vs '' @ fm_away_name m,
        m_home_team = fm_home_name m, m_away_team = fm_away_name m,
        m_status = fm_status m, m_utc_date = u,
        m_score_home = (case fm_score_home m of Some h \<Rightarrow> h | None \<Rightarrow> 0),
        m_score_away = (case fm_score_away m of Some a \<Rightarrow> a | None \<Rightarrow> 0),
        m_last_updated = sql_now e\<rparr>"]) simp
qed

lemma process_match_ids:
  assumes "process_match e d m = Inr d'"
  shows "m_id ` set (db_matches d') = insert (fm_id m) (m_id ` set (db_matches d))"
proof -
  from process_match_matches [OF assms] obtain new where
    "m_id new = fm_id m" "db_matches d' = upsert_match (sql_now e) new (db_matches d)"
    by blast
  then show ?thesis using upsert_match_ids [of "sql_now e" new "db_matches d"] by simp
qed

lemma process_matches_ids:
  assumes "process_matches e d ms = Inr d'"
  shows "m_id ` set (db_matches d') = m_id ` set (db_matches d) \<union> fm_id ` set ms"
  using assms
proof (induction ms arbitrary: d)
  case Nil
  then show ?case by simp
next
  case (Cons m ms)
  from Cons.prems obtain d1 where d1: "process_match e d m = Inr d1"
    and rest: "process_matches e d1 ms = Inr d'"
    by (auto split: sum.splits)
  from process_match_ids [OF d1] Cons.IH [OF rest] show ?case by auto
qed

lemma ids_map_preserving:
  "(\<And>r. m_id (f r) = m_id r) \<Longrightarrow> m_id ` set (map f rows) = m_id ` set rows"
  by (simp add: image_image)

lemma finish_ids:
  "m_id ` set (finish_except seen rows) = m_id ` set rows"
  "m_id ` set (finish_all rows) = m_id ` set rows"
  unfolding finish_except_def finish_all_def by (rule ids_map_preserving, simp)+

lemma persist_matches_ids:
  assumes "persist_matches e d feed = Inr d'"
  shows "m_id ` set (db_matches d')
     = m_id ` set (db_matches d) \<union> fm_id ` set (filter in_top_competition feed)"
proof -
  let ?ms = "filter in_top_competition feed"
  let ?rows = "if map fm_id ?ms \<noteq> [] then finish_except (map fm_id ?ms) (db_matches d)
               else finish_all (db_matches d)"
  from assms have "process_matches e (d\<lparr>db_matches := ?rows\<rparr>) ?ms = Inr d'"
    unfolding persist_matches_def Let_def by (auto split: if_splits)
  from process_matches_ids [OF this]
  have "m_id ` set (db_matches d') = m_id ` set ?rows \<union> fm_id ` set ?ms"
    by simp
  moreover have "m_id ` set ?rows = m_id ` set (db_matches d)"
    by (simp add: finish_ids)
  ultimately show ?thesis by simp
qed

lemma persist_matches_empty:
  "filter in_top_competition feed = [] \<Longrightarrow>
     persist_matches e d feed = Inr (d\<lparr>db_matches := finish_all (db_matches d)\<rparr>)"
  by (simp add: persist_matches_def)

lemma demo_matches_filtered: "filter in_top_competition (demo_matches e) = []"
  by (simp add: demo_matches_def in_top_competition_def)

lemma in_top_competition_iff:
  "in_top_competition m \<longleftrightarrow>
     (\<exists>c i. fm_competition m = Some c \<and> comp_id c = Some i \<and> i \<in> set TOP_COMPETITIONS)"
  by (auto simp: in_top_competition_def split: option.splits)

lemma demo_mode_effect:
  assumes "is_demo e"
  shows "poll_live_matches_outcome e s =
     (None,
      \<lparr>api = \<lparr>status = ''Demo Mode'', last_check = Some (now_str e),
               error = Some (Message
                 ''Using synthetic data. Add a real API key in .env to see live matches.'')\<rparr>,
       database = (database s)\<lparr>db_matches := finish_all (db_matches (database s))\<rparr>\<rparr>)"
  using assms
  by (simp add: poll_live_matches_outcome_def Let_def commit_or_discard_def
      persist_matches_empty [OF demo_matches_filtered])

text \<open>
  C5. In demo mode (no API key) the synthetic match records carry no competition
  and the allow-list filter keeps none of them, so the poll cycle inserts no
  snapshot and no match row. Of two stored matches absent from the feed, the one
  with status LIVE becomes FINISHED, but the one with status PAUSED, which the
  specification counts among the active statuses, keeps the status PAUSED.
\<close>

theorem C5_demo_paused_not_finished:
  "is_demo ((example_env [])\<lparr>current_key := None\<rparr>)
   \<and> filter in_top_competition (demo_matches ((example_env [])\<lparr>current_key := None\<rparr>)) = []
   \<and> map (\<lambda>r. (m_id r, m_status r)) (db_matches (database
        (poll_live_matches ((example_env [])\<lparr>current_key := None\<rparr>)
           (example_state [example_row ''PAUSED'', (example_row ''LIVE'')\<lparr>m_id := 8\<rparr>]))))
       = [(7, ''PAUSED''), (8, ''FINISHED'')]
   \<and> db_snapshots (database
        (poll_live_matches ((example_env [])\<lparr>current_key := None\<rparr>)
           (example_state [example_row ''PAUSED'', (example_row ''LIVE'')\<lparr>m_id := 8\<rparr>]))) = []
   \<and> status (api
        (poll_live_matches ((example_env [])\<lparr>current_key := None\<rparr>)
           (example_state [example_row ''PAUSED'', (example_row ''LIVE'')\<lparr>m_id := 8\<rparr>])))
       = ''Demo Mode''"
proof -
  have d: "is_demo ((example_env [])\<lparr>current_key := None\<rparr>)"
    by (simp add: is_demo_def)
  show ?thesis
    using d
    by (simp add: poll_live_matches_def demo_mode_effect [OF d] demo_matches_filtered
        finish_all_def active_statuses_def example_state_def example_row_def)
qed

lemma example_not_demo: "\<not> is_demo (example_env feed)"
  by (simp add: is_demo_def example_env_def)

text \<open>
  C3. The feed is obtained (status 200, no matches) and the store holds match 7,
  absent from the feed. Stored with status PAUSED, which the specification counts
  among the active statuses, it keeps the status PAUSED after the poll cycle; stored
  with status IN_PLAY it becomes FINISHED.
\<close>

theorem C3_paused_not_finished:
  "map m_status (db_matches (database
      (poll_live_matches (example_env []) (example_state [example_row ''PAUSED'']))))
     = [''PAUSED'']
   \<and> status (api (poll_live_matches (example_env []) (example_state [example_row ''PAUSED''])))
     = ''Healthy''
   \<and> map m_status (db_matches (database
      (poll_live_matches (example_env []) (example_state [example_row ''IN_PLAY'']))))
     = [''FINISHED'']"
  by (simp add: poll_live_matches_def poll_live_matches_outcome_def commit_or_discard_def
        Let_def persist_matches_def finish_all_def active_statuses_def is_demo_def
        example_env_def example_state_def example_row_def)

lemma poll_database_indep:
  "database s = database s' \<Longrightarrow>
     database (poll_live_matches e s) = database (poll_live_matches e s')"
  by (simp add: poll_live_matches_def poll_live_matches_outcome_def commit_or_discard_def Let_def
      split: fetch_result.splits sum.splits)

lemma poll_fetch_raised:
  assumes "\<not> is_demo e"
    and "http_get e (case current_key e of Some k \<Rightarrow> k | None \<Rightarrow> []) = Raised msg"
  shows "poll_live_matches e s =
     s\<lparr>api := \<lparr>status = ''Connection Error'', last_check = Some (now_str e),
               error = Some (FailedToConnect msg)\<rparr>\<rparr>"
  using assms by (simp add: poll_live_matches_def poll_live_matches_outcome_def Let_def)

lemma poll_fetch_not_200:
  assumes "\<not> is_demo e"
    and "http_get e (case current_key e of Some k \<Rightarrow> k | None \<Rightarrow> []) = Returned r"
    and "status_code r \<noteq> 200"
  shows "database (poll_live_matches e s) = database s
    \<and> status (api (poll_live_matches e s)) \<in> {''API Error'', ''Connection Error''}
    \<and> error (api (poll_live_matches e s)) \<noteq> None
    \<and> last_check (api (poll_live_matches e s)) = Some (now_str e)"
  using assms
  by (simp add: poll_live_matches_def poll_live_matches_outcome_def Let_def split: sum.splits)

text \<open>
  C6. With a real API key, when the request raises (network error, timeout) or
  returns a status outside 200..299, the poll cycle records an error status and
  message and leaves the stored matches and snapshots exactly as they were; the next
  cycle then does to the store what it would have done had the failed cycle not run.
\<close>

theorem C6_fetch_failure:
  "\<not> is_demo e \<longrightarrow>
   (http_get e (case current_key e of Some k \<Rightarrow> k | None \<Rightarrow> []) = Raised msg
    \<or> (http_get e (case current_key e of Some k \<Rightarrow> k | None \<Rightarrow> []) = Returned r
        \<and> \<not> (200 \<le> status_code r \<and> status_code r < 300))) \<longrightarrow>
     database (poll_live_matches e s) = database s
   \<and> status (api (poll_live_matches e s)) \<in> {''API Error'', ''Connection Error''}
   \<and> error (api (poll_live_matches e s)) \<noteq> None
   \<and> last_check (api (poll_live_matches e s)) = Some (now_str e)
   \<and> database (poll_live_matches e' (poll_live_matches e s)) = database (poll_live_matches e' s)"
proof (intro impI)
  assume nd: "\<not> is_demo e"
    and fail: "http_get e (case current_key e of Some k \<Rightarrow> k | None \<Rightarrow> []) = Raised msg
    \<or> (http_get e (case current_key e of Some k \<Rightarrow> k | None \<Rightarrow> []) = Returned r
        \<and> \<not> (200 \<le> status_code r \<and> status_code r < 300))"
  have main: "database (poll_live_matches e s) = database s
   \<and> status (api (poll_live_matches e s)) \<in> {''API Error'', ''Connection Error''}
   \<and> error (api (poll_live_matches e s)) \<noteq> None
   \<and> last_check (api (poll_live_matches e s)) = Some (now_str e)"
  proof (cases "http_get e (case current_key e of Some k \<Rightarrow> k | None \<Rightarrow> [])")
    case (Raised m)
    show ?thesis by (simp add: poll_fetch_raised [OF nd Raised])
  next
    case (Returned r')
    with fail have "status_code r' \<noteq> 200" by auto
    from poll_fetch_not_200 [OF nd Returned this] show ?thesis .
  qed
  then have "database (poll_live_matches e' (poll_live_matches e s))
      = database (poll_live_matches e' s)"
    by (intro poll_database_indep) simp
  with main show "database (poll_live_matches e s) = database s
   \<and> status (api (poll_live_matches e s)) \<in> {''API Error'', ''Connection Error''}
   \<and> error (api (poll_live_matches e s)) \<noteq> None
   \<and> last_check (api (poll_live_matches e s)) = Some (now_str e)
   \<and> database (poll_live_matches e' (poll_live_matches e s)) = database (poll_live_matches e' s)"
    by blast
qed

theorem C6_fetch_failure_witness:
  "poll_live_matches ((example_env [])\<lparr>http_get := (\<lambda>k. Returned
        \<lparr>status_code = 429, json_body = Inr \<lparr>rj_message = Some ''Too many requests'',
            rj_matches = None\<rparr>\<rparr>)\<rparr>) (example_state [example_row ''LIVE''])
     = \<lparr>api = \<lparr>status = ''API Error'', last_check = Some ''2024-05-01 18:30:00'',
               error = Some (ErrorCode 429 ''Too many requests'')\<rparr>,
        database = database (example_state [example_row ''LIVE''])\<rparr>
   \<and> database (poll_live_matches ((example_env [])\<lparr>http_get := (\<lambda>k. Raised ''timed out'')\<rparr>)
        (example_state [example_row ''LIVE''])) = database (example_state [example_row ''LIVE''])"
proof -
  let ?e1 = "(example_env [])\<lparr>http_get := (\<lambda>k. Returned
        \<lparr>status_code = 429, json_body = Inr \<lparr>rj_message = Some ''Too many requests'',
            rj_matches = None\<rparr>\<rparr>)\<rparr>"
  let ?e2 = "(example_env [])\<lparr>http_get := (\<lambda>k. Raised ''timed out'')\<rparr>"
  let ?s = "example_state [example_row ''LIVE'']"
  have nd1: "\<not> is_demo ?e1" and nd2: "\<not> is_demo ?e2"
    by (simp_all add: is_demo_def example_env_def)
  have a: "database (poll_live_matches ?e1 ?s) = database ?s"
    using C6_fetch_failure [of ?e1 "[]" "\<lparr>status_code = 429,
        json_body = Inr \<lparr>rj_message = Some ''Too many requests'', rj_matches = None\<rparr>\<rparr>" ?s ?e1] nd1
    by simp
  have b: "database (poll_live_matches ?e2 ?s) = database ?s"
    using C6_fetch_failure [of ?e2 "''timed out''" "\<lparr>status_code = 200,
        json_body = Inl []\<rparr>" ?s ?e2] nd2
    by simp
  have c: "api (poll_live_matches ?e1 ?s) = \<lparr>status = ''API Error'',
      last_check = Some ''2024-05-01 18:30:00'', error = Some (ErrorCode 429 ''Too many requests'')\<rparr>"
    using nd1 by (simp add: poll_live_matches_def poll_live_matches_outcome_def Let_def)
      (simp add: example_env_def example_state_def)
  show ?thesis using a b c by (cases "poll_live_matches ?e1 ?s") simp
qed

lemma py_int_clamp_floor: "max 1 (min (py_int x) 120) = max 1 (min 120 \<lfloor>x\<rfloor>)"
proof (cases "x < 0")
  case True
  then have "\<lceil>x\<rceil> \<le> 0" by (simp add: ceiling_le_iff)
  moreover have "\<lfloor>x\<rfloor> \<le> 0" using True by (simp add: floor_le_iff)
  ultimately show ?thesis using True by (simp add: py_int_def)
next
  case False
  then show ?thesis by (simp add: py_int_def min.commute)
qed

lemma replace_Z_empty: "replace_Z v = [] \<longleftrightarrow> v = []"
  by (cases v) (simp_all add: replace_Z_def)

lemma estimate_minute_spec:
  "((utcDate = None \<or> utcDate = Some [] \<or> (\<exists>v. utcDate = Some v \<and> fromisoformat e (replace_Z v) = None))
      \<longrightarrow> estimate_minute e utcDate = 45)
   \<and> (\<forall>err. minute_try e utcDate = Inl err \<longrightarrow> estimate_minute e utcDate = 45)
   \<and> (\<forall>v start. utcDate = Some v \<and> v \<noteq> [] \<and> fromisoformat e (replace_Z v) = Some start \<longrightarrow>
         estimate_minute e utcDate
           = max 1 (min 120 \<lfloor>real_of_int (datetime_now e (dt_tzinfo start) - dt_micros start)
                                / 1000000 / 60\<rfloor>))
   \<and> (\<exists>minute_v. estimate_minute e utcDate = minute_v \<and> 1 \<le> minute_v \<and> minute_v \<le> 120)"
proof (intro conjI)
  show "(utcDate = None \<or> utcDate = Some [] \<or> (\<exists>v. utcDate = Some v \<and> fromisoformat e (replace_Z v) = None))
      \<longrightarrow> estimate_minute e utcDate = 45"
    by (auto simp: estimate_minute_def minute_try_def Let_def replace_Z_def)
  show "\<forall>err. minute_try e utcDate = Inl err \<longrightarrow> estimate_minute e utcDate = 45"
    by (simp add: estimate_minute_def)
  show "\<forall>v start. utcDate = Some v \<and> v \<noteq> [] \<and> fromisoformat e (replace_Z v) = Some start \<longrightarrow>
         estimate_minute e utcDate
           = max 1 (min 120 \<lfloor>real_of_int (datetime_now e (dt_tzinfo start) - dt_micros start)
                                / 1000000 / 60\<rfloor>)"
    by (simp add: estimate_minute_def minute_try_def Let_def replace_Z_empty py_int_clamp_floor)
  show "\<exists>minute_v. estimate_minute e utcDate = minute_v \<and> 1 \<le> minute_v \<and> minute_v \<le> 120"
    by (simp add: estimate_minute_def minute_try_def Let_def split: option.splits)
qed

lemma persist_matches_stores_all:
  assumes "\<forall>m\<in>set (filter in_top_competition feed). fm_utcDate m \<noteq> Absent"
  shows "\<exists>d'. persist_matches e d feed = Inr d'
     \<and> fm_id ` set (filter in_top_competition feed) \<subseteq> m_id ` set (db_matches d')"
proof -
  have ret: "\<exists>d'. process_matches e d0 ms = Inr d'"
    if "\<forall>m\<in>set ms. fm_utcDate m \<noteq> Absent" for ms d0
    using that
  proof (induction ms arbitrary: d0)
    case Nil
    then show ?case by simp
  next
    case (Cons m ms)
    then obtain d1 where "process_match e d0 m = Inr d1"
      using process_match_returns [of m e d0] by auto
    with Cons show ?case by simp
  qed
  obtain d' where d': "persist_matches e d feed = Inr d'"
    unfolding persist_matches_def Let_def using ret [OF assms] by blast
  with persist_matches_ids [OF d'] show ?thesis by blast
qed

lemma example_fromisoformat:
  "fromisoformat (example_env feed) (replace_Z ''2024-05-01T18:00:00Z'')
      = Some \<lparr>dt_micros = 0, dt_tzinfo = Some 0\<rparr>"
  by (simp add: example_env_def replace_Z_def)

lemma example_minute_valid:
  "estimate_minute (example_env feed) (Some ''2024-05-01T18:00:00Z'') = 30"
  using estimate_minute_spec [of "Some ''2024-05-01T18:00:00Z''" "example_env feed"]
    example_fromisoformat [of feed]
  by (simp add: example_env_def)

lemma example_minute_missing: "estimate_minute (example_env feed) None = 45"
  using estimate_minute_spec [of None "example_env feed"] by simp

lemma order_single: "order_by_timestamp_desc [s] = [s]"
  by (simp add: order_by_timestamp_desc_def)

lemma example_process_null:
  "process_match (example_env feed) \<lparr>db_matches = [], db_snapshots = [], snapshot_seq = 0\<rparr>
      (example_feed_match 7 Null)
   = Inr \<lparr>db_matches = [\<lparr>m_id = 7, m_name = ''Home vs Away'', m_home_team = ''Home'',
             m_away_team = ''Away'', m_status = ''IN_PLAY'', m_utc_date = None,
             m_score_home = 1, m_score_away = 0, m_last_updated = 1000\<rparr>],
          db_snapshots = [\<lparr>snap_id = 1, match_id = 7, timestamp = 1000, minute = 45,
             score_home = 1, score_away = 0, pressure_index = 40\<rparr>],
          snapshot_seq = 1\<rparr>"
proof -
  have now: "sql_now (example_env feed) = 1000" by (simp add: example_env_def)
  have p: "calculate_pressure_index \<lparr>sd_minute = 45, sd_score_home = 1, sd_score_away = 0\<rparr> [] = 40"
    by (simp add: calculate_pressure_index_def np_clip_def)
  show ?thesis
    by (simp add: process_match_def Let_def example_feed_match_def index_entry_def get_entry_def
        example_minute_missing now upsert_match_def snapshots_of_def order_by_timestamp_desc_def
        p insert_snapshot_def trim_snapshots_def)
qed

lemma example_process_second:
  "process_match (example_env feed)
      \<lparr>db_matches = [\<lparr>m_id = 7, m_name = ''Home vs Away'', m_home_team = ''Home'',
             m_away_team = ''Away'', m_status = ''IN_PLAY'', m_utc_date = None,
             m_score_home = 1, m_score_away = 0, m_last_updated = 1000\<rparr>],
          db_snapshots = [\<lparr>snap_id = 1, match_id = 7, timestamp = 1000, minute = 45,
             score_home = 1, score_away = 0, pressure_index = 40\<rparr>],
          snapshot_seq = 1\<rparr>
      (example_feed_match 8 (Str ''2024-05-01T18:00:00Z''))
   = Inr \<lparr>db_matches = [\<lparr>m_id = 7, m_name = ''Home vs Away'', m_home_team = ''Home'',
             m_away_team = ''Away'', m_status = ''IN_PLAY'', m_utc_date = None,
             m_score_home = 1, m_score_away = 0, m_last_updated = 1000\<rparr>,
            \<lparr>m_id = 8, m_name = ''Home vs Away'', m_home_team = ''Home'',
             m_away_team = ''Away'', m_status = ''IN_PLAY'',
             m_utc_date = Some ''2024-05-01T18:00:00Z'',
             m_score_home = 1, m_score_away = 0, m_last_updated = 1000\<rparr>],
          db_snapshots = [\<lparr>snap_id = 1, match_id = 7, timestamp = 1000, minute = 45,
             score_home = 1, score_away = 0, pressure_index = 40\<rparr>,
            \<lparr>snap_id = 2, match_id = 8, timestamp = 1000, minute = 30,
             score_home = 1, score_away = 0, pressure_index = 110 / 3\<rparr>],
          snapshot_seq = 2\<rparr>"
proof -
  have now: "sql_now (example_env feed) = 1000" by (simp add: example_env_def)
  have p: "calculate_pressure_index \<lparr>sd_minute = 30, sd_score_home = 1, sd_score_away = 0\<rparr> []
      = 110 / 3"
    by (simp add: calculate_pressure_index_def np_clip_def)
  show ?thesis
    by (simp add: process_match_def Let_def example_feed_match_def index_entry_def get_entry_def
        example_minute_valid now upsert_match_def snapshots_of_def order_by_timestamp_desc_def
        p insert_snapshot_def trim_snapshots_def)
qed

lemma example_in_top: "in_top_competition (example_feed_match i u)"
  by (simp add: in_top_competition_def example_feed_match_def TOP_COMPETITIONS_def)

lemma example_feed_fields:
  "fm_utcDate (example_feed_match i u) = u" "fm_id (example_feed_match i u) = i"
  by (simp_all add: example_feed_match_def)

lemma example_env_fields:
  "current_key (example_env feed) = Some ''k3y''"
  "http_get (example_env feed) k = Returned \<lparr>status_code = 200,
        json_body = Inr \<lparr>rj_message = None, rj_matches = Some feed\<rparr>\<rparr>"
  "now_str (example_env feed) = ''2024-05-01 18:30:00''"
  by (simp_all add: example_env_def)

lemma example_poll_healthy:
  "poll_live_matches_outcome (example_env feed) s
     = commit_or_discard
         \<lparr>status = ''Healthy'', last_check = Some ''2024-05-01 18:30:00'', error = None\<rparr>
         (database s) (persist_matches (example_env feed) (database s) feed)"
proof -
  have a: "(api s)\<lparr>last_check := Some ''2024-05-01 18:30:00'', status := ''Healthy'',
                   error := None\<rparr>
      = \<lparr>status = ''Healthy'', last_check = Some ''2024-05-01 18:30:00'', error = None\<rparr>"
    by simp
  show ?thesis
    by (simp add: poll_live_matches_outcome_def Let_def example_not_demo example_env_fields a)
qed

text \<open>
  C7. The feed is obtained and holds two matches of an allow-listed competition;
  the first has no \<^verbatim>\<open>utcDate\<close> entry. The minute estimator alone yields 45 for the
  missing entry, but it is never reached: \<^verbatim>\<open>m['utcDate']\<close> in the statement that
  stores the match raises \<^verbatim>\<open>KeyError\<close>, which leaves \<^verbatim>\<open>poll_live_matches\<close>; the
  second match is not processed and nothing of the cycle is stored. With a
  \<^verbatim>\<open>null\<close> entry instead, the cycle returns and stores both matches, the first
  with minute 45 and the second with the 30 minutes elapsed.
\<close>

theorem C7_missing_kickoff_aborts_cycle:
  "estimate_minute
      (example_env [example_feed_match 7 Absent, example_feed_match 8 (Str ''2024-05-01T18:00:00Z'')])
      (get_entry Absent) = 45
   \<and> poll_live_matches_outcome
        (example_env [example_feed_match 7 Absent, example_feed_match 8 (Str ''2024-05-01T18:00:00Z'')])
        (example_state [])
      = (Some KeyError,
         \<lparr>api = \<lparr>status = ''Healthy'', last_check = Some ''2024-05-01 18:30:00'', error = None\<rparr>,
          database = \<lparr>db_matches = [], db_snapshots = [], snapshot_seq = 0\<rparr>\<rparr>)
   \<and> fst (poll_live_matches_outcome
        (example_env [example_feed_match 7 Null, example_feed_match 8 (Str ''2024-05-01T18:00:00Z'')])
        (example_state [])) = None
   \<and> map m_id (db_matches (database (poll_live_matches
        (example_env [example_feed_match 7 Null, example_feed_match 8 (Str ''2024-05-01T18:00:00Z'')])
        (example_state [])))) = [7, 8]
   \<and> map minute (db_snapshots (database (poll_live_matches
        (example_env [example_feed_match 7 Null, example_feed_match 8 (Str ''2024-05-01T18:00:00Z'')])
        (example_state [])))) = [45, 30]"
proof -
  let ?fa = "[example_feed_match 7 Absent, example_feed_match 8 (Str ''2024-05-01T18:00:00Z'')]"
  let ?fn = "[example_feed_match 7 Null, example_feed_match 8 (Str ''2024-05-01T18:00:00Z'')]"
  let ?d0 = "\<lparr>db_matches = [], db_snapshots = [], snapshot_seq = 0\<rparr>"
  have est: "estimate_minute (example_env ?fa) (get_entry Absent) = 45"
    by (simp add: get_entry_def example_minute_missing)
  have abs: "persist_matches (example_env ?fa) ?d0 ?fa = Inl KeyError"
    by (simp add: persist_matches_def Let_def example_in_top example_feed_fields
        process_match_absent)
  have nul: "persist_matches (example_env ?fn) ?d0 ?fn
      = process_match (example_env ?fn)
          \<lparr>db_matches = [\<lparr>m_id = 7, m_name = ''Home vs Away'', m_home_team = ''Home'',
             m_away_team = ''Away'', m_status = ''IN_PLAY'', m_utc_date = None,
             m_score_home = 1, m_score_away = 0, m_last_updated = 1000\<rparr>],
          db_snapshots = [\<lparr>snap_id = 1, match_id = 7, timestamp = 1000, minute = 45,
             score_home = 1, score_away = 0, pressure_index = 40\<rparr>],
          snapshot_seq = 1\<rparr>
          (example_feed_match 8 (Str ''2024-05-01T18:00:00Z''))"
    by (simp add: persist_matches_def Let_def example_in_top example_feed_fields
        finish_except_def example_process_null split: sum.splits)
  have out: "poll_live_matches_outcome (example_env feed) (example_state [])
      = commit_or_discard
          \<lparr>status = ''Healthy'', last_check = Some ''2024-05-01 18:30:00'', error = None\<rparr> ?d0
          (persist_matches (example_env feed) ?d0 feed)" for feed
    by (simp add: example_poll_healthy example_state_def)
  have out_a: "poll_live_matches_outcome (example_env ?fa) (example_state [])
      = (Some KeyError,
         \<lparr>api = \<lparr>status = ''Healthy'', last_check = Some ''2024-05-01 18:30:00'', error = None\<rparr>,
          database = ?d0\<rparr>)"
    by (simp only: out abs commit_or_discard_def sum.case)
  have out_n: "poll_live_matches_outcome (example_env ?fn) (example_state [])
      = commit_or_discard
          \<lparr>status = ''Healthy'', last_check = Some ''2024-05-01 18:30:00'', error = None\<rparr> ?d0
          (persist_matches (example_env ?fn) ?d0 ?fn)"
    by (rule out)
  show ?thesis
    using est out_a
    by (simp add: poll_live_matches_def out_n nul example_process_second commit_or_discard_def)
qed

lemma upsert_match_other:
  assumes "\<And>r. P r \<Longrightarrow> m_id r \<noteq> m_id new"
  shows "filter P (upsert_match now new rows) = filter P rows"
proof (cases "m_id new \<in> m_id ` set rows")
  case True
  have "filter P (map (\<lambda>r. if m_id r = m_id new
                    then r\<lparr>m_status := m_status new, m_score_home := m_score_home new,
                           m_score_away := m_score_away new, m_last_updated := now\<rparr>
                    else r) rows) = filter P rows"
    by (induction rows) (auto dest: assms)
  with True show ?thesis by (simp add: upsert_match_def)
next
  case False
  then show ?thesis using assms by (auto simp: upsert_match_def)
qed

lemma process_match_other_rows:
  assumes "\<And>r. P r \<Longrightarrow> m_id r \<noteq> fm_id m" and "process_match e d m = Inr d'"
  shows "filter P (db_matches d') = filter P (db_matches d)"
proof -
  from process_match_matches [OF assms(2)] obtain new where
    new: "m_id new = fm_id m" "db_matches d' = upsert_match (sql_now e) new (db_matches d)"
    by blast
  have "\<And>r. P r \<Longrightarrow> m_id r \<noteq> m_id new" using assms(1) new(1) by simp
  from upsert_match_other [OF this] new(2) show ?thesis by simp
qed

lemma process_matches_other_rows:
  assumes "\<And>r. P r \<Longrightarrow> m_id r \<notin> fm_id ` set ms" and "process_matches e d ms = Inr d'"
  shows "filter P (db_matches d') = filter P (db_matches d)"
  using assms
proof (induction ms arbitrary: d)
  case Nil
  then show ?case by simp
next
  case (Cons m ms)
  from Cons.prems(2) obtain d1 where d1: "process_match e d m = Inr d1"
    and rest: "process_matches e d1 ms = Inr d'"
    by (auto split: sum.splits)
  have "filter P (db_matches d1) = filter P (db_matches d)"
    using Cons.prems(1) by (intro process_match_other_rows [OF _ d1]) auto
  moreover have "filter P (db_matches d') = filter P (db_matches d1)"
    using Cons.prems(1) by (intro Cons.IH [OF _ rest]) auto
  ultimately show ?case by simp
qed

lemma persist_marks_finished:
  assumes "r \<in> set (db_matches d)" "m_status r \<in> set active_statuses"
    and "m_id r \<notin> fm_id ` set (filter in_top_competition feed)"
    and "persist_matches e d feed = Inr d'"
  shows "r\<lparr>m_status := ''FINISHED''\<rparr> \<in> set (db_matches d')"
proof -
  let ?ms = "filter in_top_competition feed"
  let ?P = "\<lambda>r. m_id r \<notin> fm_id ` set ?ms"
  let ?rows = "if map fm_id ?ms \<noteq> [] then finish_except (map fm_id ?ms) (db_matches d)
               else finish_all (db_matches d)"
  have "r\<lparr>m_status := ''FINISHED''\<rparr> \<in> set ?rows"
    using assms(1-3)
    by (auto simp: finish_except_def finish_all_def image_iff intro!: bexI [of _ r])
  then have "r\<lparr>m_status := ''FINISHED''\<rparr> \<in> set (filter ?P ?rows)"
    using assms(3) by simp
  also have "filter ?P ?rows = filter ?P (db_matches d')"
  proof -
    from assms(4) have "process_matches e (d\<lparr>db_matches := ?rows\<rparr>) ?ms = Inr d'"
      unfolding persist_matches_def Let_def by (auto split: if_splits)
    from process_matches_other_rows [OF _ this, of ?P] show ?thesis by simp
  qed
  finally show ?thesis by simp
qed

end
